theory Spec2Isabelle
  imports Complex_Main "HOL-Library.Word"
begin

unbundle bit_operations_syntax

section \<open>The MS5611 driver (libraries/ms5611/ms5611.cpp)\<close>

text \<open>
  The driver is a set of C++ free functions over file-scope variables. The model passes
  the variables around as one record. Fixed-width integers are words: \<open>uint16_t\<close> is
  \<open>16 word\<close>, \<open>uint32_t\<close> and \<open>int32_t\<close> are \<open>32 word\<close>, \<open>int64_t\<close> is \<open>64 word\<close>;
  a signed variable is read with \<open>sint\<close>, widened with \<open>scast\<close>, compared with \<open><s\<close> and
  shifted right with \<open>signed_drop_bit\<close> (the arithmetic shift the AVR compiler emits);
  an unsigned one is widened with \<open>ucast\<close>. Signed multiplication that leaves the range
  of its type wraps around, as it does on the target.
\<close>

subsection \<open>Calibration compensator: the arithmetic of \<open>ms5611_updateData\<close>\<close>

type_synonym first_order = "32 word \<times> 32 word \<times> 64 word \<times> 64 word"

text \<open>Lines 233-266: \<open>dt\<close>, \<open>temp\<close>, \<open>off\<close> and \<open>sens\<close> before the second order compensation.\<close>

definition compute_first_order ::
  "16 word \<Rightarrow> 16 word \<Rightarrow> 16 word \<Rightarrow> 16 word \<Rightarrow> 16 word \<Rightarrow> 16 word \<Rightarrow> 32 word \<Rightarrow> first_order" where
  "compute_first_order k1 k2 k3 k4 k5 k6 d2 =
    (let c5s = (ucast k5 :: 32 word);
         c5s = push_bit 8 c5s;
         dt = d2 - c5s;
         c6s = (ucast k6 :: 32 word);
         c6s = c6s * dt;
         c6s = signed_drop_bit 23 c6s;
         temp = 2000 + c6s;
         c2d = (ucast k2 :: 64 word);
         c2d = push_bit 16 c2d;
         c4d = (ucast k4 :: 64 word);
         c4d = c4d * scast dt;
         c4d = signed_drop_bit 7 c4d;
         off = c2d + c4d;
         c1d = (ucast k1 :: 64 word);
         c1d = push_bit 15 c1d;
         c3d = (ucast k3 :: 64 word);
         c3d = c3d * scast dt;
         c3d = signed_drop_bit 8 c3d;
         sens = c1d + c3d
     in (dt, temp, off, sens))"

text \<open>Lines 268-294: the second order compensation, a block that rewrites \<open>temp\<close>, \<open>off\<close>
  and \<open>sens\<close> when \<open>temp < 2000\<close>.\<close>

definition second_order_compensation ::
  "32 word \<Rightarrow> 32 word \<Rightarrow> 64 word \<Rightarrow> 64 word \<Rightarrow> 32 word \<times> 64 word \<times> 64 word" where
  "second_order_compensation dt temp off sens =
    (if temp <s 2000 then
       let t2 = (scast dt :: 64 word);
           t2 = t2 * t2;
           t2 = signed_drop_bit 31 t2;
           off2 = (scast (temp - 2000) :: 64 word);
           off2 = off2 * off2;
           off2 = off2 * 5;
           sens2 = off2;
           off2 = signed_drop_bit 1 off2;
           sens2 = signed_drop_bit 2 sens2;
           (off2, sens2) =
             (if temp <s - 1500 then
                let dtemp = (scast (temp + 1500) :: 64 word);
                    dtemp = dtemp * dtemp;
                    off2 = off2 + 7 * dtemp;
                    dtemp = dtemp * 11;
                    dtemp = signed_drop_bit 1 dtemp;
                    sens2 = sens2 + dtemp
                in (off2, sens2)
              else (off2, sens2));
           temp = (ucast (scast temp - t2) :: 32 word);
           off = off - off2;
           sens = sens - sens2
       in (temp, off, sens)
     else (temp, off, sens))"

text \<open>Lines 296-301: the pressure, before the division by \<open>2^15\<close> that is left to the
  floating point scaling.\<close>

definition compute_pressure :: "32 word \<Rightarrow> 64 word \<Rightarrow> 64 word \<Rightarrow> 64 word" where
  "compute_pressure d1 off sens =
    (let p = ucast d1 * sens;
         p = signed_drop_bit 21 p;
         p = p - off
     in p)"

text \<open>Lines 232-301 as a whole: the final \<open>temp\<close> and \<open>p\<close>.\<close>

definition compensate ::
  "16 word \<Rightarrow> 16 word \<Rightarrow> 16 word \<Rightarrow> 16 word \<Rightarrow> 16 word \<Rightarrow> 16 word \<Rightarrow> 32 word \<Rightarrow> 32 word
     \<Rightarrow> 32 word \<times> 64 word" where
  "compensate k1 k2 k3 k4 k5 k6 d1 d2 =
    (case compute_first_order k1 k2 k3 k4 k5 k6 d2 of (dt, temp, off, sens) \<Rightarrow>
       case second_order_compensation dt temp off sens of (temp, off, sens) \<Rightarrow>
         (temp, compute_pressure d1 off sens))"

subsection \<open>The reference algorithm of the specification, in unbounded integers\<close>

text \<open>Section 4.3 of the specification, word for word, over \<open>int\<close>; \<open>x >> n\<close> is
  \<open>x div 2 ^ n\<close>, rounding down.\<close>

definition ref_first_order :: "int \<Rightarrow> int \<Rightarrow> int \<Rightarrow> int \<Rightarrow> int \<Rightarrow> int \<Rightarrow> int \<Rightarrow> int \<times> int \<times> int \<times> int" where
  "ref_first_order C1 C2 C3 C4 C5 C6 D2 =
    (let dT = D2 - C5 * 2 ^ 8;
         TEMP = 2000 + (C6 * dT) div 2 ^ 23;
         OFF = C2 * 2 ^ 16 + (C4 * dT) div 2 ^ 7;
         SENS = C1 * 2 ^ 15 + (C3 * dT) div 2 ^ 8
     in (dT, TEMP, OFF, SENS))"

definition ref_second_order :: "int \<Rightarrow> int \<Rightarrow> int \<Rightarrow> int \<Rightarrow> int \<times> int \<times> int" where
  "ref_second_order dT TEMP OFF SENS =
    (if TEMP < 2000 then
       let T2 = (dT * dT) div 2 ^ 31;
           OFF2 = (5 * (TEMP - 2000)\<^sup>2) div 2 ^ 1;
           SENS2 = (5 * (TEMP - 2000)\<^sup>2) div 2 ^ 2;
           extra = (TEMP + 1500)\<^sup>2;
           OFF2 = (if TEMP < - 1500 then OFF2 + 7 * extra else OFF2);
           SENS2 = (if TEMP < - 1500 then SENS2 + (11 * extra) div 2 ^ 1 else SENS2)
       in (TEMP - T2, OFF - OFF2, SENS - SENS2)
     else (TEMP, OFF, SENS))"

definition ref_compensate :: "int \<Rightarrow> int \<Rightarrow> int \<Rightarrow> int \<Rightarrow> int \<Rightarrow> int \<Rightarrow> int \<Rightarrow> int \<Rightarrow> int \<times> int" where
  "ref_compensate C1 C2 C3 C4 C5 C6 D1 D2 =
    (case ref_first_order C1 C2 C3 C4 C5 C6 D2 of (dT, TEMP, OFF, SENS) \<Rightarrow>
       case ref_second_order dT TEMP OFF SENS of (TEMP, OFF, SENS) \<Rightarrow>
         (TEMP, (D1 * SENS) div 2 ^ 21 - OFF))"

definition ref_compensate_c6_int32 :: "int \<Rightarrow> int \<Rightarrow> int \<Rightarrow> int \<Rightarrow> int \<Rightarrow> int \<Rightarrow> int \<Rightarrow> int \<Rightarrow> int \<times> int" where
  \<comment> \<open>the reference with one change: the product \<open>C6 * dT\<close> is cut to 32 signed bits\<close>
  "ref_compensate_c6_int32 C1 C2 C3 C4 C5 C6 D1 D2 =
    (case ref_first_order C1 C2 C3 C4 C5 C6 D2 of (dT, TEMP, OFF, SENS) \<Rightarrow>
       case ref_second_order dT (2000 + signed_take_bit 31 (C6 * dT) div 2 ^ 23) OFF SENS of
         (TEMP, OFF, SENS) \<Rightarrow> (TEMP, (D1 * SENS) div 2 ^ 21 - OFF))"

subsection \<open>The bus, the timer and the variables of the driver\<close>

text \<open>
  The header \<open>ms5611.h\<close> and the bus library \<open>I2Cdev\<close> lie outside \<open>ms5611.cpp\<close>.
  The command bytes and delays that the header names are kept symbolic. Every bus
  transaction and every delay is appended to a trace, so that what the driver asked of
  the device can be read back.
\<close>

datatype ms5611_cmd =
    MS5611_CMD_RESET
  | MS5611_CMD_READ_PROM_plus int
  | MS5611_CMD_ADC_READ
  | MS5611_CMD_CONV_D1
  | MS5611_CMD_CONV_D2

datatype delay_const = MS5611_RESET_DELAY | MS5611_CONV_DELAY

datatype event =
    I2C_writeBytes ms5611_cmd
  | I2C_readBytes ms5611_cmd nat
  | Delay delay_const

text \<open>
  What \<open>I2Cdev::readBytes\<close> leaves behind: the status it returns (the number of bytes
  read, negative after a timeout) and the content of the caller's buffer when it returns.
  The buffer is an uninitialised local array, so after a failed transaction its content is
  whatever the environment put there.
\<close>

record 'b readBytes_result =
  rb_count :: int
  rb_data :: 'b

type_synonym adc_read = "(8 word \<times> 8 word \<times> 8 word) readBytes_result"
type_synonym prom_read = "(8 word \<times> 8 word) readBytes_result"

definition read_failed :: "nat \<Rightarrow> 'b readBytes_result \<Rightarrow> bool" where
  "read_failed n r \<longleftrightarrow> rb_count r < int n"

text \<open>Modelled from the spec: the two values of \<open>measureStep\<close> are macros of the missing
  header; the specification gives the variable as an enumeration of two states.\<close>

datatype measure_step = MS5611_STEP_READ_TEMP | MS5611_STEP_READ_PRESSURE

record ms5611_state =
  d1i :: "32 word"
  d2i :: "32 word"
  measureStep :: measure_step
  newData :: bool
  locked :: bool
  interruptWait :: bool
  deviceReset :: bool
  c1 :: "16 word"
  c2 :: "16 word"
  c3 :: "16 word"
  c4 :: "16 word"
  c5 :: "16 word"
  c6 :: "16 word"
  compensatedTemperature :: real
  compensatedPressure :: real
  TCCR2A :: "8 word"
  TCCR2B :: "8 word"
  TIMSK2 :: "8 word"
  TCNT2 :: "8 word"
  OCR2A :: "8 word"
  interruptsEnabled :: bool
  bus :: "event list"

text \<open>The timer is the one of the \<open>TIMER2_COMPA_vect\<close> branch of the conditional compilation;
  the other branch does the same on the registers of timer 3. The floating point
  variables hold exact reals: rounding is not modelled.\<close>

subsection \<open>Measure functions\<close>

definition delay :: "delay_const \<Rightarrow> ms5611_state \<Rightarrow> ms5611_state" where
  "delay d s = s\<lparr>bus := bus s @ [Delay d]\<rparr>"

definition ms5611_resetCommand :: "ms5611_state \<Rightarrow> ms5611_state" where
  "ms5611_resetCommand s = s\<lparr>bus := bus s @ [I2C_writeBytes MS5611_CMD_RESET]\<rparr>"

text \<open>The status \<open>rb_count r\<close> is not looked at: the value is built from the buffer.\<close>

definition ms5611_getPROMValue :: "int \<Rightarrow> prom_read \<Rightarrow> ms5611_state \<Rightarrow> 16 word \<times> ms5611_state" where
  "ms5611_getPROMValue address r s =
    (let s = s\<lparr>bus := bus s @ [I2C_readBytes (MS5611_CMD_READ_PROM_plus (address * 2)) 2]\<rparr>;
         (data0, data1) = rb_data r;
         v = (ucast data0 :: 16 word);
         v = push_bit 8 v;
         v = v + ucast data1
     in (v, s))"

text \<open>The reference parameter \<open>value\<close> is passed in and the final content returned.\<close>

definition ms5611_getDigitalValue :: "adc_read \<Rightarrow> 32 word \<Rightarrow> ms5611_state \<Rightarrow> 32 word \<times> ms5611_state" where
  "ms5611_getDigitalValue r val s =
    (let s = s\<lparr>bus := bus s @ [I2C_readBytes MS5611_CMD_ADC_READ 3]\<rparr>;
         (data0, data1, data2) = rb_data r;
         val = (ucast data0 :: 32 word);
         val = push_bit 8 val;
         val = val + ucast data1;
         val = push_bit 8 val;
         val = val + ucast data2
     in (val, s))"

definition ms5611_convertD1 :: "ms5611_state \<Rightarrow> ms5611_state" where
  "ms5611_convertD1 s = s\<lparr>bus := bus s @ [I2C_writeBytes MS5611_CMD_CONV_D1]\<rparr>"

definition ms5611_convertD2 :: "ms5611_state \<Rightarrow> ms5611_state" where
  "ms5611_convertD2 s = s\<lparr>bus := bus s @ [I2C_writeBytes MS5611_CMD_CONV_D2]\<rparr>"

definition ms5611_readTempStep :: "adc_read \<Rightarrow> ms5611_state \<Rightarrow> ms5611_state" where
  "ms5611_readTempStep r s =
    (let (v, s) = ms5611_getDigitalValue r (d1i s) s;
         s = s\<lparr>d1i := v\<rparr>
     in ms5611_convertD2 s)"

definition ms5611_readPressureStep :: "adc_read \<Rightarrow> ms5611_state \<Rightarrow> ms5611_state" where
  "ms5611_readPressureStep r s =
    (let (v, s) = ms5611_getDigitalValue r (d2i s) s;
         s = s\<lparr>d2i := v\<rparr>;
         s = ms5611_convertD1 s
     in s\<lparr>newData := True\<rparr>)"

definition ms5611_readStep :: "adc_read \<Rightarrow> ms5611_state \<Rightarrow> ms5611_state" where
  "ms5611_readStep r s =
    (if measureStep s = MS5611_STEP_READ_TEMP then
       (ms5611_readTempStep r s)\<lparr>measureStep := MS5611_STEP_READ_PRESSURE\<rparr>
     else
       (ms5611_readPressureStep r s)\<lparr>measureStep := MS5611_STEP_READ_TEMP\<rparr>)"

subsection \<open>Interrupt and mutex functions\<close>

definition ms5611_lock :: "ms5611_state \<Rightarrow> ms5611_state" where
  "ms5611_lock s = s\<lparr>locked := True\<rparr>"

definition ms5611_release :: "adc_read \<Rightarrow> ms5611_state \<Rightarrow> ms5611_state" where
  "ms5611_release r s =
    (let s = s\<lparr>locked := False\<rparr>
     in if interruptWait s then
          let s = ms5611_readStep r s;
              s = s\<lparr>TCNT2 := 0\<rparr>
          in s\<lparr>interruptWait := False\<rparr>
        else s)"

text \<open>The interrupt handler, run to its end in one go; \<open>r\<close> is what the bus would answer
  if the handler reads.\<close>

definition ISR_TIMER2_COMPA_vect :: "adc_read \<Rightarrow> ms5611_state \<Rightarrow> ms5611_state" where
  "ISR_TIMER2_COMPA_vect r s =
    (if locked s then s\<lparr>interruptWait := True\<rparr>
     else
       let s = s\<lparr>interruptsEnabled := True\<rparr>
       in ms5611_readStep r s)"

text \<open>The macro \<open>MS5611_INTERRUPT_COMPARE\<close> of the missing header is the parameter \<open>cmp\<close>.\<close>

definition ms5611_setTimer :: "8 word \<Rightarrow> ms5611_state \<Rightarrow> ms5611_state" where
  "ms5611_setTimer cmp s =
    (let s = s\<lparr>interruptsEnabled := False\<rparr>;
         s = s\<lparr>TCCR2A := 2\<rparr>;
         s = s\<lparr>TCCR2B := 7\<rparr>;
         s = s\<lparr>TIMSK2 := 2\<rparr>;
         s = s\<lparr>TCNT2 := 0\<rparr>;
         s = s\<lparr>OCR2A := cmp\<rparr>
     in s\<lparr>interruptsEnabled := True\<rparr>)"

subsection \<open>Altimeter public functions\<close>

text \<open>\<open>p0\<close> to \<open>p5\<close> are what the bus answers to the six PROM reads, if they are made.\<close>

definition ms5611_init ::
  "8 word \<Rightarrow> prom_read \<Rightarrow> prom_read \<Rightarrow> prom_read \<Rightarrow> prom_read \<Rightarrow> prom_read \<Rightarrow> prom_read
     \<Rightarrow> ms5611_state \<Rightarrow> ms5611_state" where
  "ms5611_init cmp p0 p1 p2 p3 p4 p5 s =
    (let s =
       (if \<not> deviceReset s then
          let s = s\<lparr>deviceReset := True\<rparr>;
              s = ms5611_resetCommand s;
              s = delay MS5611_RESET_DELAY s;
              (v, s) = ms5611_getPROMValue 0 p0 s; s = s\<lparr>c1 := v\<rparr>;
              (v, s) = ms5611_getPROMValue 1 p1 s; s = s\<lparr>c2 := v\<rparr>;
              (v, s) = ms5611_getPROMValue 2 p2 s; s = s\<lparr>c3 := v\<rparr>;
              (v, s) = ms5611_getPROMValue 3 p3 s; s = s\<lparr>c4 := v\<rparr>;
              (v, s) = ms5611_getPROMValue 4 p4 s; s = s\<lparr>c5 := v\<rparr>;
              (v, s) = ms5611_getPROMValue 5 p5 s
          in s\<lparr>c6 := v\<rparr>
        else s);
         s = s\<lparr>measureStep := MS5611_STEP_READ_TEMP\<rparr>;
         s = s\<lparr>newData := False\<rparr>;
         s = ms5611_convertD1 s;
         s = delay MS5611_CONV_DELAY s
     in ms5611_setTimer cmp s)"

definition ms5611_dataReady :: "ms5611_state \<Rightarrow> bool" where
  "ms5611_dataReady s = newData s"

definition store_compensated :: "32 word \<Rightarrow> 32 word \<Rightarrow> ms5611_state \<Rightarrow> ms5611_state" where
  \<comment> \<open>lines 232-306: the arithmetic on the copies \<open>d1\<close>, \<open>d2\<close> and the saving of the result\<close>
  "store_compensated d1 d2 s =
    (case compensate (c1 s) (c2 s) (c3 s) (c4 s) (c5 s) (c6 s) d1 d2 of (temp, p) \<Rightarrow>
       let s = s\<lparr>compensatedTemperature := real_of_int (sint temp) / 100\<rparr>
       in s\<lparr>compensatedPressure := (real_of_int (sint p) / 32768) / 100\<rparr>)"

definition ms5611_updateData :: "adc_read \<Rightarrow> ms5611_state \<Rightarrow> ms5611_state" where
  "ms5611_updateData r s =
    (let s = ms5611_lock s;
         d1 = d1i s;
         d2 = d2i s;
         s = s\<lparr>newData := False\<rparr>;
         s = ms5611_release r s
     in store_compensated d1 d2 s)"

definition ms5611_getTemperature :: "ms5611_state \<Rightarrow> real" where
  "ms5611_getTemperature s = compensatedTemperature s"

definition ms5611_getPressure :: "ms5611_state \<Rightarrow> real" where
  "ms5611_getPressure s = compensatedPressure s"

text \<open>
  \<open>ms5611_getAltitude\<close> divides and calls \<open>pow\<close> on doubles, where a result need not be a
  number. Its value is a real number, an infinity or NaN; rounding is not modelled. The
  stored pressure is always finite. The divisor is a literal of the header, so a zero
  divisor is the positive zero. \<open>double_pow\<close> is \<open>pow\<close> for an exponent that is positive and
  not an integer, the only one used: NaN for a negative base, zero for a zero base and
  plus infinity for either infinity.
\<close>

datatype double = Finite real | Plus_infinity | Minus_infinity | NaN

definition double_div :: "real \<Rightarrow> real \<Rightarrow> double" where
  "double_div a b =
    (if b = 0 then (if a = 0 then NaN else if 0 < a then Plus_infinity else Minus_infinity)
     else Finite (a / b))"

fun double_pow :: "double \<Rightarrow> real \<Rightarrow> double" where
  "double_pow (Finite x) y = (if x < 0 then NaN else Finite (x powr y))"
| "double_pow Plus_infinity y = Plus_infinity"
| "double_pow Minus_infinity y = Plus_infinity"
| "double_pow NaN y = NaN"

fun one_minus :: "double \<Rightarrow> double" where
  "one_minus (Finite a) = Finite (1 - a)"
| "one_minus Plus_infinity = Minus_infinity"
| "one_minus Minus_infinity = Plus_infinity"
| "one_minus NaN = NaN"

text \<open>Multiplication by a positive finite constant.\<close>

fun double_times :: "double \<Rightarrow> real \<Rightarrow> double" where
  "double_times (Finite a) c = Finite (a * c)"
| "double_times Plus_infinity c = Plus_infinity"
| "double_times Minus_infinity c = Minus_infinity"
| "double_times NaN c = NaN"

text \<open>The macro \<open>MS5611_BASE_SEA_PRESSURE\<close> of the missing header is the parameter
  \<open>base_sea_pressure\<close>.\<close>

definition ms5611_getAltitude :: "real \<Rightarrow> ms5611_state \<Rightarrow> double" where
  "ms5611_getAltitude base_sea_pressure s =
    (let alti = double_pow (double_div (compensatedPressure s) base_sea_pressure) 0.1902949572;
         alti = double_times (one_minus alti) (288.15 / 0.0065)
     in alti)"

subsection \<open>The timer interrupt inside the critical section of \<open>ms5611_updateData\<close>\<close>

text \<open>
  The timer may fire between any two statements of lines 226-230. \<open>Some r\<close> says that it
  fires at that point (with \<open>r\<close> the answer the bus would give), \<open>None\<close> that it does not.
\<close>

definition timer_interrupt :: "adc_read option \<Rightarrow> ms5611_state \<Rightarrow> ms5611_state" where
  "timer_interrupt i s = (case i of None \<Rightarrow> s | Some r \<Rightarrow> ISR_TIMER2_COMPA_vect r s)"

definition fired :: "adc_read option \<Rightarrow> bool" where
  "fired i = (case i of None \<Rightarrow> False | Some r \<Rightarrow> True)"

definition updateData_critical_section ::
  "adc_read option \<Rightarrow> adc_read option \<Rightarrow> adc_read option \<Rightarrow> adc_read option \<Rightarrow> ms5611_state
     \<Rightarrow> 32 word \<times> 32 word \<times> ms5611_state" where
  "updateData_critical_section i1 i2 i3 i4 s =
    (let s = ms5611_lock s;
         s = timer_interrupt i1 s;
         d1 = d1i s;
         s = timer_interrupt i2 s;
         d2 = d2i s;
         s = timer_interrupt i3 s;
         s = s\<lparr>newData := False\<rparr>;
         s = timer_interrupt i4 s
     in (d1, d2, s))"

definition ms5611_updateData_preempted ::
  "adc_read option \<Rightarrow> adc_read option \<Rightarrow> adc_read option \<Rightarrow> adc_read option \<Rightarrow> adc_read
     \<Rightarrow> ms5611_state \<Rightarrow> ms5611_state" where
  "ms5611_updateData_preempted i1 i2 i3 i4 r s =
    (case updateData_critical_section i1 i2 i3 i4 s of (d1, d2, s) \<Rightarrow>
       let s = ms5611_release r s
       in store_compensated d1 d2 s)"

subsection \<open>Sequences of calls\<close>

text \<open>Successive calls of \<open>ms5611_readStep\<close>, one bus answer per call.\<close>

fun ms5611_readSteps :: "adc_read list \<Rightarrow> ms5611_state \<Rightarrow> ms5611_state" where
  "ms5611_readSteps [] s = s"
| "ms5611_readSteps (r # rs) s = ms5611_readSteps rs (ms5611_readStep r s)"

text \<open>The operations of the driver that a caller or the hardware can start, with the
  answers of the bus they consume. The four getters return a value and leave every
  variable as it is.\<close>

datatype driver_call =
    Call_init "8 word" prom_read prom_read prom_read prom_read prom_read prom_read
  | Call_dataReady
  | Call_updateData adc_read
  | Call_getTemperature
  | Call_getPressure
  | Call_getAltitude
  | Call_lock
  | Call_release adc_read
  | Call_readStep adc_read
  | Timer_fires adc_read

fun run_call :: "driver_call \<Rightarrow> ms5611_state \<Rightarrow> ms5611_state" where
  "run_call (Call_init cmp p0 p1 p2 p3 p4 p5) s = ms5611_init cmp p0 p1 p2 p3 p4 p5 s"
| "run_call Call_dataReady s = s"
| "run_call (Call_updateData r) s = ms5611_updateData r s"
| "run_call Call_getTemperature s = s"
| "run_call Call_getPressure s = s"
| "run_call Call_getAltitude s = s"
| "run_call Call_lock s = ms5611_lock s"
| "run_call (Call_release r) s = ms5611_release r s"
| "run_call (Call_readStep r) s = ms5611_readStep r s"
| "run_call (Timer_fires r) s = ISR_TIMER2_COMPA_vect r s"

fun run_calls :: "driver_call list \<Rightarrow> ms5611_state \<Rightarrow> ms5611_state" where
  "run_calls [] s = s"
| "run_calls (c # cs) s = run_calls cs (run_call c s)"

subsection \<open>Reading the trace and the variables\<close>

fun is_adc_read :: "event \<Rightarrow> bool" where
  "is_adc_read (I2C_readBytes MS5611_CMD_ADC_READ n) = True"
| "is_adc_read e = False"

fun is_prom_read :: "event \<Rightarrow> bool" where
  "is_prom_read (I2C_readBytes (MS5611_CMD_READ_PROM_plus a) n) = True"
| "is_prom_read e = False"

fun is_reset :: "event \<Rightarrow> bool" where
  "is_reset (I2C_writeBytes MS5611_CMD_RESET) = True"
| "is_reset e = False"

text \<open>Every \<open>ms5611_readStep\<close> reads the converter once, and nothing else does: the number
  of steps run so far is the number of such reads in the trace.\<close>

definition steps_run :: "ms5611_state \<Rightarrow> nat" where
  "steps_run s = length (filter is_adc_read (bus s))"

definition coefficients :: "ms5611_state \<Rightarrow> 16 word \<times> 16 word \<times> 16 word \<times> 16 word \<times> 16 word \<times> 16 word" where
  "coefficients s = (c1 s, c2 s, c3 s, c4 s, c5 s, c6 s)"

subsection \<open>Keeping the calibration\<close>

text \<open>Two states agree on the calibration: same coefficients, same \<open>deviceReset\<close>, and
  the same PROM reads and reset commands on the bus so far.\<close>

definition calibration_kept :: "ms5611_state \<Rightarrow> ms5611_state \<Rightarrow> bool" where
  "calibration_kept s s' \<longleftrightarrow>
     coefficients s' = coefficients s \<and> deviceReset s' = deviceReset s
     \<and> filter is_prom_read (bus s') = filter is_prom_read (bus s)
     \<and> filter is_reset (bus s') = filter is_reset (bus s)"

subsection \<open>Sample values\<close>

text \<open>A state with every variable zero or false and the sampler waiting for its first
  read; the six PROM words and the two raw samples of the example in the sensor's data
  sheet (C1 = 40127, C2 = 36924, C3 = 23317, C4 = 23282, C5 = 33464, C6 = 28312,
  D1 = 9085466, D2 = 8569150, 20.07 degrees and 1000.09 mbar); and reads that timed out,
  leaving three or two arbitrary bytes in the buffer.\<close>

definition quiet_state :: ms5611_state where
  "quiet_state =
    \<lparr>d1i = 0, d2i = 0, measureStep = MS5611_STEP_READ_TEMP, newData = False, locked = False,
     interruptWait = False, deviceReset = False, c1 = 0, c2 = 0, c3 = 0, c4 = 0, c5 = 0, c6 = 0,
     compensatedTemperature = 0, compensatedPressure = 0, TCCR2A = 0, TCCR2B = 0, TIMSK2 = 0,
     TCNT2 = 0, OCR2A = 0, interruptsEnabled = True, bus = []\<rparr>"

definition prom_word1 :: prom_read where
  "prom_word1 = \<lparr>rb_count = 2, rb_data = (156, 191)\<rparr>"

definition prom_word2 :: prom_read where
  "prom_word2 = \<lparr>rb_count = 2, rb_data = (144, 60)\<rparr>"

definition prom_word3 :: prom_read where
  "prom_word3 = \<lparr>rb_count = 2, rb_data = (91, 21)\<rparr>"

definition prom_word4 :: prom_read where
  "prom_word4 = \<lparr>rb_count = 2, rb_data = (90, 242)\<rparr>"

definition prom_word5 :: prom_read where
  "prom_word5 = \<lparr>rb_count = 2, rb_data = (130, 184)\<rparr>"

definition prom_word6 :: prom_read where
  "prom_word6 = \<lparr>rb_count = 2, rb_data = (110, 152)\<rparr>"

definition raw_d1 :: adc_read where
  "raw_d1 = \<lparr>rb_count = 3, rb_data = (138, 162, 26)\<rparr>"

definition raw_d2 :: adc_read where
  "raw_d2 = \<lparr>rb_count = 3, rb_data = (130, 193, 62)\<rparr>"

definition timed_out_adc_read :: adc_read where
  "timed_out_adc_read = \<lparr>rb_count = - 1, rb_data = (18, 52, 86)\<rparr>"

definition timed_out_prom_read :: prom_read where
  "timed_out_prom_read = \<lparr>rb_count = - 1, rb_data = (18, 52)\<rparr>"

text \<open>The driver initialised from \<open>quiet_state\<close> with the PROM of the data sheet, after two
  timer ticks: one complete pair of raw samples is waiting.\<close>

definition sampling_state :: ms5611_state where
  "sampling_state =
    run_calls
      [Call_init 9 prom_word1 prom_word2 prom_word3 prom_word4 prom_word5 prom_word6,
       Timer_fires raw_d1, Timer_fires raw_d2]
      quiet_state"

section \<open>Signed and unsigned word arithmetic that does not wrap\<close>

text \<open>Each lemma reads one C operation on words as the same operation on integers, given
  that the integer result fits the type.\<close>

lemma sint_mult64:
  fixes a b :: "64 word"
  assumes "sint a = x" "sint b = y" "x * y = z" "- (2 ^ 63) \<le> z" "z < 2 ^ 63"
  shows "sint (a * b) = z"
  using assms by (simp add: sint_word_mult signed_take_bit_int_eq_self)

lemma sint_add64:
  fixes a b :: "64 word"
  assumes "sint a = x" "sint b = y" "- (2 ^ 63) \<le> x + y" "x + y < 2 ^ 63"
  shows "sint (a + b) = x + y"
  using assms by (simp add: sint_word_add signed_take_bit_int_eq_self)

lemma sint_diff64:
  fixes a b :: "64 word"
  assumes "sint a = x" "sint b = y" "- (2 ^ 63) \<le> x - y" "x - y < 2 ^ 63"
  shows "sint (a - b) = x - y"
  using assms by (simp add: sint_word_diff signed_take_bit_int_eq_self)

lemma sint_mult32:
  fixes a b :: "32 word"
  assumes "sint a = x" "sint b = y" "x * y = z" "- (2 ^ 31) \<le> z" "z < 2 ^ 31"
  shows "sint (a * b) = z"
  using assms by (simp add: sint_word_mult signed_take_bit_int_eq_self)

lemma sint_add32:
  fixes a b :: "32 word"
  assumes "sint a = x" "sint b = y" "- (2 ^ 31) \<le> x + y" "x + y < 2 ^ 31"
  shows "sint (a + b) = x + y"
  using assms by (simp add: sint_word_add signed_take_bit_int_eq_self)

lemma sint_diff32:
  fixes a b :: "32 word"
  assumes "sint a = x" "sint b = y" "- (2 ^ 31) \<le> x - y" "x - y < 2 ^ 31"
  shows "sint (a - b) = x - y"
  using assms by (simp add: sint_word_diff signed_take_bit_int_eq_self)

lemma sint_asr:
  assumes "sint a = x"
  shows "sint (signed_drop_bit n a) = x div 2 ^ n"
  using assms by (simp add: sint_signed_drop_bit_eq drop_bit_int_def)

lemma sint_widen: "sint (scast (w :: 32 word) :: 64 word) = sint w"
  by (simp add: sint_up_scast is_up)

lemma sint_narrow:
  fixes w :: "64 word"
  assumes "sint w = x" "- (2 ^ 31) \<le> x" "x < 2 ^ 31"
  shows "sint (ucast w :: 32 word) = x"
proof -
  have "(ucast w :: 32 word) = scast w"
    by (simp add: down_cast_same [symmetric] is_down)
  then show ?thesis
    using assms by (simp add: signed_scast_eq signed_take_bit_int_eq_self)
qed

lemma signed_take_bit_nonneg_self:
  fixes x :: int
  assumes "0 \<le> x" "x < 2 ^ n"
  shows "signed_take_bit n x = x"
proof (rule signed_take_bit_int_eq_self)
  have "- (2 ^ n) \<le> (0 :: int)" by simp
  with assms(1) show "- (2 ^ n) \<le> x" by linarith
qed (rule assms(2))

lemma uint16_bounds: "0 \<le> uint (k :: 16 word)" "uint k \<le> 65535"
  using uint_lt2p [of k] by simp_all

lemma sint_ucast_16_32: "sint (ucast (k :: 16 word) :: 32 word) = uint k"
  using uint16_bounds [of k] by (simp add: signed_ucast_eq signed_take_bit_nonneg_self)

lemma sint_ucast_16_64: "sint (ucast (k :: 16 word) :: 64 word) = uint k"
  using uint16_bounds [of k] by (simp add: signed_ucast_eq signed_take_bit_nonneg_self)

lemma sint_ucast_32_64: "sint (ucast (d :: 32 word) :: 64 word) = uint d"
  using uint_lt2p [of d] by (simp add: signed_ucast_eq signed_take_bit_nonneg_self)

lemma sint_eq_uint_24:
  fixes d :: "32 word"
  assumes "uint d < 2 ^ 24"
  shows "sint d = uint d"
  using assms by (simp add: sint_uint signed_take_bit_nonneg_self)

lemma sq_bound:
  fixes x :: int
  assumes "\<bar>x\<bar> \<le> b" "x * x = z"
  shows "0 \<le> z" "z \<le> b * b"
proof -
  show "0 \<le> z" using assms(2) by auto
  have "\<bar>x\<bar> * \<bar>x\<bar> \<le> b * b"
    using assms(1) by (intro mult_mono) simp_all
  then show "z \<le> b * b" using assms(2) by simp
qed

lemma asr_bounds:
  fixes z :: int
  assumes "lo * 2 ^ n \<le> z" "z \<le> hi * 2 ^ n"
  shows "lo \<le> z div 2 ^ n" "z div 2 ^ n \<le> hi"
proof -
  have "(lo * 2 ^ n) div 2 ^ n \<le> z div 2 ^ n"
    by (rule zdiv_mono1 [OF assms(1)]) simp
  then show "lo \<le> z div 2 ^ n" by simp
  have "z div 2 ^ n \<le> (hi * 2 ^ n) div 2 ^ n"
    by (rule zdiv_mono1 [OF assms(2)]) simp
  then show "z div 2 ^ n \<le> hi" by simp
qed

lemma coeff_times_bound:
  fixes k d :: int
  assumes "0 \<le> k" "k \<le> 65535" "\<bar>d\<bar> \<le> b" "k * d = z"
  shows "- (65535 * b) \<le> z" "z \<le> 65535 * b"
proof -
  have "\<bar>k * d\<bar> \<le> 65535 * b"
    unfolding abs_mult using assms(1-3) by (intro mult_mono) simp_all
  then show "- (65535 * b) \<le> z" "z \<le> 65535 * b"
    using assms(4) by simp_all
qed

lemma wrapped_shift_bounds:
  "- (2 ^ 8) \<le> signed_take_bit 31 (x :: int) div 2 ^ 23"
  "signed_take_bit 31 (x :: int) div 2 ^ 23 \<le> 2 ^ 8"
  using signed_take_bit_int_greater_eq_minus_exp [of 31 x]
    signed_take_bit_int_less_exp [of 31 x]
    asr_bounds [of "- (2 ^ 8)" 23 "signed_take_bit 31 x" "2 ^ 8"]
  by simp_all

lemma uint_add_exact:
  fixes a b :: "'a::len word"
  assumes "uint a = x" "uint b = y" "x + y < 2 ^ LENGTH('a)"
  shows "uint (a + b) = x + y"
proof -
  have "0 \<le> uint a + uint b" by simp
  then show ?thesis
    using assms by (simp add: uint_word_ariths)
qed

lemma uint_shl8_exact:
  fixes a :: "'a::len word"
  assumes "uint a = x" "x * 256 < 2 ^ LENGTH('a)"
  shows "uint (push_bit 8 a) = x * 256"
proof -
  have "uint (push_bit 8 a) = take_bit LENGTH('a) (push_bit 8 (uint a))"
    by (simp add: unsigned_push_bit_eq)
  also have "\<dots> = push_bit 8 (uint a)"
    using assms by (intro take_bit_int_eq_self) (auto simp add: push_bit_eq_mult)
  finally show ?thesis
    using assms by (simp add: push_bit_eq_mult)
qed

lemma uint_byte: "uint (ucast (b :: 8 word) :: 'a::len word) = uint b" if "8 \<le> LENGTH('a)"
  using that by (simp add: uint_up_ucast is_up)

lemma assemble_24:
  fixes b0 b1 b2 :: "8 word"
  shows "uint (push_bit 8 (push_bit 8 (ucast b0 :: 32 word) + ucast b1) + ucast b2) =
    uint b0 * 65536 + uint b1 * 256 + uint b2"
proof -
  define B0 B1 B2 where B: "B0 = uint b0" "B1 = uint b1" "B2 = uint b2"
  have bb: "0 \<le> B0" "B0 < 256" "0 \<le> B1" "B1 < 256" "0 \<le> B2" "B2 < 256"
    using uint_lt2p [of b0] uint_lt2p [of b1] uint_lt2p [of b2] by (simp_all add: B)
  have s0: "uint (push_bit 8 (ucast b0 :: 32 word)) = B0 * 256"
    by (rule uint_shl8_exact) (use bb in \<open>simp_all add: uint_byte B\<close>)
  have s1: "uint (push_bit 8 (ucast b0 :: 32 word) + ucast b1) = B0 * 256 + B1"
    by (rule uint_add_exact [OF s0]) (use bb in \<open>simp_all add: uint_byte B\<close>)
  have s2: "uint (push_bit 8 (push_bit 8 (ucast b0 :: 32 word) + ucast b1)) = (B0 * 256 + B1) * 256"
    by (rule uint_shl8_exact [OF s1]) (use bb in simp_all)
  have "uint (push_bit 8 (push_bit 8 (ucast b0 :: 32 word) + ucast b1) + ucast b2) =
      (B0 * 256 + B1) * 256 + B2"
    by (rule uint_add_exact [OF s2]) (use bb in \<open>simp_all add: uint_byte B\<close>)
  then show ?thesis
    by (simp add: B algebra_simps)
qed

lemma assemble_16:
  fixes b0 b1 :: "8 word"
  shows "uint (push_bit 8 (ucast b0 :: 16 word) + ucast b1) = uint b0 * 256 + uint b1"
proof -
  define B0 B1 where B: "B0 = uint b0" "B1 = uint b1"
  have bb: "0 \<le> B0" "B0 < 256" "0 \<le> B1" "B1 < 256"
    using uint_lt2p [of b0] uint_lt2p [of b1] by (simp_all add: B)
  have s0: "uint (push_bit 8 (ucast b0 :: 16 word)) = B0 * 256"
    by (rule uint_shl8_exact) (use bb in \<open>simp_all add: uint_byte B\<close>)
  have "uint (push_bit 8 (ucast b0 :: 16 word) + ucast b1) = B0 * 256 + B1"
    by (rule uint_add_exact [OF s0]) (use bb in \<open>simp_all add: uint_byte B\<close>)
  then show ?thesis
    by (simp add: B)
qed

section \<open>The compensator against the reference algorithm\<close>

text \<open>The second order block computes the reference's second order step on the integer
  values of its inputs, for every \<open>dt\<close> and \<open>temp\<close> in the range the reference first order
  step can produce.\<close>

lemma second_order_compensation_sint:
  fixes dt temp :: "32 word" and off sens :: "64 word"
  assumes dt: "\<bar>sint dt\<bar> < 2 ^ 24"
    and temp: "- (2 ^ 17) \<le> sint temp - 2000" "sint temp - 2000 < 2 ^ 17"
    and off: "\<bar>sint off\<bar> < 2 ^ 40" and sens: "\<bar>sint sens\<bar> < 2 ^ 40"
  shows "(case second_order_compensation dt temp off sens of
            (t, off', sens') \<Rightarrow> (sint t, sint off', sint sens')) =
         ref_second_order (sint dt) (sint temp) (sint off) (sint sens)"
proof -
  define D where "D = sint dt"
  define T where "T = sint temp"
  define DD where "DD = D * D"
  define UU where "UU = (T - 2000) * (T - 2000)"
  define VV where "VV = (T + 1500) * (T + 1500)"
  have Dsq: "0 \<le> DD" "DD \<le> 2 ^ 48"
    using sq_bound [of D "2 ^ 24" DD] dt by (simp_all add: D_def DD_def)
  have Usq: "0 \<le> UU" "UU \<le> 2 ^ 34"
    using sq_bound [of "T - 2000" "2 ^ 17" UU] temp by (simp_all add: UU_def T_def)
  have Vsq: "0 \<le> VV" "VV \<le> 2 ^ 36"
    using sq_bound [of "T + 1500" "2 ^ 18" VV] temp by (simp_all add: VV_def T_def)
  have t2w: "sint (scast dt * scast dt :: 64 word) = DD"
  proof (rule sint_mult64)
    show "D * D = DD" by (simp add: DD_def)
  qed (use Dsq in \<open>simp_all add: sint_widen D_def\<close>)
  have t2: "sint (signed_drop_bit 31 (scast dt * scast dt :: 64 word)) = DD div 2 ^ 31"
    by (rule sint_asr) (rule t2w)
  have t2_bound: "0 \<le> DD div 2 ^ 31" "DD div 2 ^ 31 \<le> 2 ^ 17"
    using asr_bounds [of 0 31 DD "2 ^ 17"] Dsq by simp_all
  have u: "sint (temp - 2000) = T - 2000"
    unfolding T_def by (rule sint_diff32) (use temp in simp_all)
  have usq: "sint (scast (temp - 2000) * scast (temp - 2000) :: 64 word) = UU"
  proof (rule sint_mult64)
    show "(T - 2000) * (T - 2000) = UU" by (simp add: UU_def)
  qed (use Usq in \<open>simp_all add: sint_widen u\<close>)
  have usq5: "sint (scast (temp - 2000) * scast (temp - 2000) * 5 :: 64 word) = 5 * UU"
    by (rule sint_mult64 [where y = 5, OF usq]) (use Usq in simp_all)
  have off2: "sint (signed_drop_bit 1 (scast (temp - 2000) * scast (temp - 2000) * 5 :: 64 word))
      = 5 * UU div 2 ^ 1"
    by (rule sint_asr) (rule usq5)
  have sens2: "sint (signed_drop_bit 2 (scast (temp - 2000) * scast (temp - 2000) * 5 :: 64 word))
      = 5 * UU div 2 ^ 2"
    by (rule sint_asr) (rule usq5)
  have off2_bound: "0 \<le> 5 * UU div 2 ^ 1" "5 * UU div 2 ^ 1 \<le> 2 ^ 36"
    using asr_bounds [of 0 1 "5 * UU" "2 ^ 36"] Usq by simp_all
  have sens2_bound: "0 \<le> 5 * UU div 2 ^ 2" "5 * UU div 2 ^ 2 \<le> 2 ^ 35"
    using asr_bounds [of 0 2 "5 * UU" "2 ^ 35"] Usq by simp_all
  have tfin: "sint (ucast (scast temp - signed_drop_bit 31 (scast dt * scast dt :: 64 word)) :: 32 word)
      = T - DD div 2 ^ 31"
  proof (rule sint_narrow)
    show "sint (scast temp - signed_drop_bit 31 (scast dt * scast dt :: 64 word)) = T - DD div 2 ^ 31"
      by (rule sint_diff64 [OF _ t2]) (use t2_bound temp in \<open>simp_all add: sint_widen T_def\<close>)
  qed (use t2_bound temp in \<open>simp_all add: T_def\<close>)
  have v: "sint (temp + 1500) = T + 1500"
    unfolding T_def by (rule sint_add32) (use temp in simp_all)
  have vsq: "sint (scast (temp + 1500) * scast (temp + 1500) :: 64 word) = VV"
  proof (rule sint_mult64)
    show "(T + 1500) * (T + 1500) = VV" by (simp add: VV_def)
  qed (use Vsq in \<open>simp_all add: sint_widen v\<close>)
  have vsq7: "sint (7 * (scast (temp + 1500) * scast (temp + 1500)) :: 64 word) = 7 * VV"
    by (rule sint_mult64 [where x = 7, OF _ vsq]) (use Vsq in simp_all)
  have vsq11: "sint (scast (temp + 1500) * scast (temp + 1500) * 11 :: 64 word) = 11 * VV"
    by (rule sint_mult64 [where y = 11, OF vsq]) (use Vsq in simp_all)
  have vsq11h: "sint (signed_drop_bit 1 (scast (temp + 1500) * scast (temp + 1500) * 11 :: 64 word))
      = 11 * VV div 2 ^ 1"
    by (rule sint_asr) (rule vsq11)
  have vsq11h_bound: "0 \<le> 11 * VV div 2 ^ 1" "11 * VV div 2 ^ 1 \<le> 2 ^ 39"
    using asr_bounds [of 0 1 "11 * VV" "2 ^ 39"] Vsq by simp_all
  have off2x: "sint (signed_drop_bit 1 (scast (temp - 2000) * scast (temp - 2000) * 5 :: 64 word)
      + 7 * (scast (temp + 1500) * scast (temp + 1500))) = 5 * UU div 2 ^ 1 + 7 * VV"
    by (rule sint_add64 [OF off2 vsq7]) (use off2_bound Vsq in simp_all)
  have sens2x: "sint (signed_drop_bit 2 (scast (temp - 2000) * scast (temp - 2000) * 5 :: 64 word)
      + signed_drop_bit 1 (scast (temp + 1500) * scast (temp + 1500) * 11))
      = 5 * UU div 2 ^ 2 + 11 * VV div 2 ^ 1"
    by (rule sint_add64 [OF sens2 vsq11h]) (use sens2_bound vsq11h_bound in simp_all)
  have offA: "sint (off - signed_drop_bit 1 (scast (temp - 2000) * scast (temp - 2000) * 5 :: 64 word))
      = sint off - 5 * UU div 2 ^ 1"
    by (rule sint_diff64 [OF refl off2]) (use off2_bound off in simp_all)
  have sensA: "sint (sens - signed_drop_bit 2 (scast (temp - 2000) * scast (temp - 2000) * 5 :: 64 word))
      = sint sens - 5 * UU div 2 ^ 2"
    by (rule sint_diff64 [OF refl sens2]) (use sens2_bound sens in simp_all)
  have offB: "sint (off - (signed_drop_bit 1 (scast (temp - 2000) * scast (temp - 2000) * 5 :: 64 word)
      + 7 * (scast (temp + 1500) * scast (temp + 1500)))) = sint off - (5 * UU div 2 ^ 1 + 7 * VV)"
    by (rule sint_diff64 [OF refl off2x]) (use off2_bound Vsq off in simp_all)
  have sensB: "sint (sens - (signed_drop_bit 2 (scast (temp - 2000) * scast (temp - 2000) * 5 :: 64 word)
      + signed_drop_bit 1 (scast (temp + 1500) * scast (temp + 1500) * 11)))
      = sint sens - (5 * UU div 2 ^ 2 + 11 * VV div 2 ^ 1)"
    by (rule sint_diff64 [OF refl sens2x]) (use sens2_bound vsq11h_bound sens in simp_all)
  have lt1: "temp <s 2000 \<longleftrightarrow> T < 2000"
    by (simp add: word_sless_alt T_def)
  have lt2: "temp <s - 1500 \<longleftrightarrow> T < - 1500"
    by (simp add: word_sless_alt T_def)
  have sq1: "(T - 2000)\<^sup>2 = UU" and sq2: "(T + 1500)\<^sup>2 = VV"
    by (simp_all add: UU_def VV_def power2_eq_square)
  have ref: "ref_second_order D T (sint off) (sint sens) =
      (if T < 2000 then
         (T - DD div 2 ^ 31,
          sint off - (if T < - 1500 then 5 * UU div 2 ^ 1 + 7 * VV else 5 * UU div 2 ^ 1),
          sint sens - (if T < - 1500 then 5 * UU div 2 ^ 2 + 11 * VV div 2 ^ 1 else 5 * UU div 2 ^ 2))
       else (T, sint off, sint sens))"
    by (simp add: ref_second_order_def Let_def sq1 sq2 DD_def)
  show ?thesis
  proof (cases "T < 2000")
    case False
    then show ?thesis
      unfolding D_def [symmetric] T_def [symmetric] ref
      by (simp add: second_order_compensation_def lt1 T_def)
  next
    case lt: True
    show ?thesis
    proof (cases "T < - 1500")
      case True
      with lt show ?thesis
        unfolding D_def [symmetric] T_def [symmetric] ref
        by (simp only: second_order_compensation_def Let_def lt1 lt2 if_True prod.case
            tfin offB sensB)
    next
      case False
      with lt show ?thesis
        unfolding D_def [symmetric] T_def [symmetric] ref
        by (simp only: second_order_compensation_def Let_def lt1 lt2 if_True if_False prod.case
            tfin offA sensA)
    qed
  qed
qed

text \<open>The first order step: \<open>dt\<close>, \<open>off\<close> and \<open>sens\<close> are the reference's values; \<open>temp\<close> is the
  reference's with the product \<open>C6 * dT\<close> cut to 32 signed bits, because \<open>c6s\<close> is an
  \<open>int32_t\<close>.\<close>

lemma first_order_sint:
  fixes k1 k2 k3 k4 k5 k6 :: "16 word" and d2 :: "32 word"
  assumes d2: "uint d2 < 2 ^ 24"
  shows "(case compute_first_order k1 k2 k3 k4 k5 k6 d2 of
            (dt, temp, off, sens) \<Rightarrow> (sint dt, sint temp, sint off, sint sens)) =
         (uint d2 - uint k5 * 2 ^ 8,
          2000 + signed_take_bit 31 (uint k6 * (uint d2 - uint k5 * 2 ^ 8)) div 2 ^ 23,
          uint k2 * 2 ^ 16 + (uint k4 * (uint d2 - uint k5 * 2 ^ 8)) div 2 ^ 7,
          uint k1 * 2 ^ 15 + (uint k3 * (uint d2 - uint k5 * 2 ^ 8)) div 2 ^ 8)"
proof -
  define K1 K2 K3 K4 K5 K6 where K_def:
    "K1 = uint k1" "K2 = uint k2" "K3 = uint k3" "K4 = uint k4" "K5 = uint k5" "K6 = uint k6"
  define D2 where "D2 = uint d2"
  define D where "D = D2 - K5 * 2 ^ 8"
  have kb: "0 \<le> K1" "K1 \<le> 65535" "0 \<le> K2" "K2 \<le> 65535" "0 \<le> K3" "K3 \<le> 65535"
    "0 \<le> K4" "K4 \<le> 65535" "0 \<le> K5" "K5 \<le> 65535"
    unfolding K_def by (simp_all add: uint16_bounds)
  have d2b: "0 \<le> D2" "D2 < 2 ^ 24"
    using d2 by (simp_all add: D2_def)
  have c5s: "sint (push_bit 8 (ucast k5 :: 32 word)) = K5 * 2 ^ 8"
    unfolding push_bit_eq_mult
    by (rule sint_mult32 [where x = K5 and y = "2 ^ 8"])
      (use kb in \<open>simp_all add: sint_ucast_16_32 K_def [symmetric]\<close>)
  have Db: "- (2 ^ 24) \<le> D" "D \<le> 2 ^ 24"
    using d2b kb unfolding D_def by simp_all
  have dt: "sint (d2 - push_bit 8 (ucast k5 :: 32 word)) = D"
    unfolding D_def
    by (rule sint_diff32 [where x = D2, OF _ c5s])
      (use Db d2 in \<open>simp_all add: sint_eq_uint_24 D_def D2_def\<close>)
  define W where "W = signed_take_bit 31 (K6 * D) div 2 ^ 23"
  have c6s: "sint (signed_drop_bit 23 (ucast k6 * (d2 - push_bit 8 (ucast k5 :: 32 word)))) = W"
    unfolding W_def
    by (rule sint_asr) (simp add: sint_word_mult sint_ucast_16_32 dt K_def)
  have Wb: "- (2 ^ 8) \<le> W" "W \<le> 2 ^ 8"
    unfolding W_def
    using signed_take_bit_int_greater_eq_minus_exp [of 31 "K6 * D"]
      signed_take_bit_int_less_exp [of 31 "K6 * D"]
      asr_bounds [of "- (2 ^ 8)" 23 "signed_take_bit 31 (K6 * D)" "2 ^ 8"]
    by simp_all
  have temp: "sint (2000 + signed_drop_bit 23 (ucast k6 * (d2 - push_bit 8 (ucast k5 :: 32 word)))) = 2000 + W"
    by (rule sint_add32 [OF _ c6s]) (use Wb in simp_all)
  define P4 where "P4 = K4 * D"
  define P3 where "P3 = K3 * D"
  have P4b: "- (65535 * 2 ^ 24) \<le> P4" "P4 \<le> 65535 * 2 ^ 24"
    using coeff_times_bound [of K4 D "2 ^ 24" P4] kb Db by (simp_all add: P4_def abs_le_iff)
  have P3b: "- (65535 * 2 ^ 24) \<le> P3" "P3 \<le> 65535 * 2 ^ 24"
    using coeff_times_bound [of K3 D "2 ^ 24" P3] kb Db by (simp_all add: P3_def abs_le_iff)
  have c2d: "sint (push_bit 16 (ucast k2 :: 64 word)) = K2 * 2 ^ 16"
    unfolding push_bit_eq_mult
    by (rule sint_mult64 [where x = K2 and y = "2 ^ 16"])
      (use kb in \<open>simp_all add: sint_ucast_16_64 K_def [symmetric]\<close>)
  have c1d: "sint (push_bit 15 (ucast k1 :: 64 word)) = K1 * 2 ^ 15"
    unfolding push_bit_eq_mult
    by (rule sint_mult64 [where x = K1 and y = "2 ^ 15"])
      (use kb in \<open>simp_all add: sint_ucast_16_64 K_def [symmetric]\<close>)
  have c4d: "sint (signed_drop_bit 7 (ucast k4 * scast (d2 - push_bit 8 (ucast k5 :: 32 word)) :: 64 word))
      = P4 div 2 ^ 7"
  proof (rule sint_asr, rule sint_mult64 [where x = K4 and y = D])
    show "K4 * D = P4" by (simp add: P4_def)
  qed (use P4b in \<open>simp_all add: sint_ucast_16_64 sint_widen dt K_def\<close>)
  have c3d: "sint (signed_drop_bit 8 (ucast k3 * scast (d2 - push_bit 8 (ucast k5 :: 32 word)) :: 64 word))
      = P3 div 2 ^ 8"
  proof (rule sint_asr, rule sint_mult64 [where x = K3 and y = D])
    show "K3 * D = P3" by (simp add: P3_def)
  qed (use P3b in \<open>simp_all add: sint_ucast_16_64 sint_widen dt K_def\<close>)
  have c4db: "- (2 ^ 33) \<le> P4 div 2 ^ 7" "P4 div 2 ^ 7 \<le> 2 ^ 33"
    using asr_bounds [of "- (2 ^ 33)" 7 P4 "2 ^ 33"] P4b by simp_all
  have c3db: "- (2 ^ 32) \<le> P3 div 2 ^ 8" "P3 div 2 ^ 8 \<le> 2 ^ 32"
    using asr_bounds [of "- (2 ^ 32)" 8 P3 "2 ^ 32"] P3b by simp_all
  have off: "sint (push_bit 16 (ucast k2 :: 64 word)
      + signed_drop_bit 7 (ucast k4 * scast (d2 - push_bit 8 (ucast k5 :: 32 word)))) = K2 * 2 ^ 16 + P4 div 2 ^ 7"
    by (rule sint_add64 [OF c2d c4d]) (use kb c4db in simp_all)
  have sens: "sint (push_bit 15 (ucast k1 :: 64 word)
      + signed_drop_bit 8 (ucast k3 * scast (d2 - push_bit 8 (ucast k5 :: 32 word)))) = K1 * 2 ^ 15 + P3 div 2 ^ 8"
    by (rule sint_add64 [OF c1d c3d]) (use kb c3db in simp_all)
  show ?thesis
    by (simp only: compute_first_order_def Let_def prod.case dt temp off sens)
      (simp only: W_def P4_def P3_def D_def D2_def K_def)
qed

lemma pressure_sint:
  fixes d1 :: "32 word" and off sens :: "64 word"
  assumes d1: "uint d1 < 2 ^ 24"
    and sens: "- (2 ^ 38) \<le> sint sens" "sint sens \<le> 2 ^ 38"
    and off: "- (2 ^ 40) \<le> sint off" "sint off \<le> 2 ^ 40"
  shows "sint (compute_pressure d1 off sens) = (uint d1 * sint sens) div 2 ^ 21 - sint off"
proof -
  define D1 where "D1 = uint d1"
  define S where "S = sint sens"
  define P where "P = D1 * S"
  have d1b: "0 \<le> D1" "D1 \<le> 2 ^ 24"
    using d1 by (simp_all add: D1_def)
  have "\<bar>D1 * S\<bar> \<le> 2 ^ 24 * 2 ^ 38"
    unfolding abs_mult using d1b sens by (intro mult_mono) (simp_all add: S_def abs_le_iff)
  then have Pb: "- (2 ^ 62) \<le> P" "P \<le> 2 ^ 62"
    by (simp_all add: P_def abs_le_iff)
  have prod: "sint (ucast d1 * sens :: 64 word) = P"
  proof (rule sint_mult64 [where x = D1 and y = S])
    show "D1 * S = P" by (simp add: P_def)
  qed (use Pb in \<open>simp_all add: sint_ucast_32_64 D1_def S_def\<close>)
  have shifted: "sint (signed_drop_bit 21 (ucast d1 * sens :: 64 word)) = P div 2 ^ 21"
    by (rule sint_asr) (rule prod)
  have sb: "- (2 ^ 41) \<le> P div 2 ^ 21" "P div 2 ^ 21 \<le> 2 ^ 41"
    using asr_bounds [of "- (2 ^ 41)" 21 P "2 ^ 41"] Pb by simp_all
  have "sint (signed_drop_bit 21 (ucast d1 * sens :: 64 word) - off) = P div 2 ^ 21 - sint off"
    by (rule sint_diff64 [OF shifted refl]) (use sb off in simp_all)
  then show ?thesis
    by (simp only: compute_pressure_def Let_def P_def D1_def S_def)
qed

lemma ref_first_order_bounds:
  fixes C1 C2 C3 C4 C5 C6 D2 :: int
  assumes c: "0 \<le> C1" "C1 \<le> 65535" "0 \<le> C2" "C2 \<le> 65535" "0 \<le> C3" "C3 \<le> 65535"
      "0 \<le> C4" "C4 \<le> 65535" "0 \<le> C5" "C5 \<le> 65535"
    and d: "0 \<le> D2" "D2 < 2 ^ 24"
    and r: "ref_first_order C1 C2 C3 C4 C5 C6 D2 = (dT, TEMP, OFF, SENS)"
  shows "\<bar>dT\<bar> < 2 ^ 24" "\<bar>OFF\<bar> \<le> 2 ^ 34" "\<bar>SENS\<bar> \<le> 2 ^ 33"
proof -
  have dT: "dT = D2 - C5 * 2 ^ 8"
    and OFF: "OFF = C2 * 2 ^ 16 + (C4 * dT) div 2 ^ 7"
    and SENS: "SENS = C1 * 2 ^ 15 + (C3 * dT) div 2 ^ 8"
    using r by (auto simp add: ref_first_order_def Let_def)
  show dTb: "\<bar>dT\<bar> < 2 ^ 24"
    using c d by (simp add: dT abs_less_iff)
  then have dTb': "\<bar>dT\<bar> \<le> 2 ^ 24" by simp
  define P4 where "P4 = C4 * dT"
  define P3 where "P3 = C3 * dT"
  have P4b: "- (65535 * 2 ^ 24) \<le> P4" "P4 \<le> 65535 * 2 ^ 24"
    using coeff_times_bound [of C4 dT "2 ^ 24" P4] c dTb' by (simp_all add: P4_def)
  have P3b: "- (65535 * 2 ^ 24) \<le> P3" "P3 \<le> 65535 * 2 ^ 24"
    using coeff_times_bound [of C3 dT "2 ^ 24" P3] c dTb' by (simp_all add: P3_def)
  have "- (2 ^ 33) \<le> P4 div 2 ^ 7" "P4 div 2 ^ 7 \<le> 2 ^ 33"
    using asr_bounds [of "- (2 ^ 33)" 7 P4 "2 ^ 33"] P4b by simp_all
  then show "\<bar>OFF\<bar> \<le> 2 ^ 34"
    using c unfolding OFF P4_def [symmetric] by (simp add: abs_le_iff)
  have "- (2 ^ 32) \<le> P3 div 2 ^ 8" "P3 div 2 ^ 8 \<le> 2 ^ 32"
    using asr_bounds [of "- (2 ^ 32)" 8 P3 "2 ^ 32"] P3b by simp_all
  then show "\<bar>SENS\<bar> \<le> 2 ^ 33"
    using c unfolding SENS P3_def [symmetric] by (simp add: abs_le_iff)
qed

lemma ref_second_order_bounds:
  fixes D T O' S :: int
  assumes t: "- (2 ^ 8) \<le> T - 2000" "T - 2000 \<le> 2 ^ 8"
    and o: "\<bar>O'\<bar> \<le> 2 ^ 34" and s: "\<bar>S\<bar> \<le> 2 ^ 33"
    and r: "ref_second_order D T O' S = (T2, O2, S2)"
  shows "\<bar>O2\<bar> \<le> 2 ^ 35" "\<bar>S2\<bar> \<le> 2 ^ 34"
proof -
  define UU where "UU = (T - 2000) * (T - 2000)"
  have Usq: "0 \<le> UU" "UU \<le> 2 ^ 16"
    using sq_bound [of "T - 2000" "2 ^ 8" UU] t by (simp_all add: UU_def abs_le_iff)
  have sq1: "(T - 2000)\<^sup>2 = UU"
    by (simp add: UU_def power2_eq_square)
  define A where "A = 5 * UU div 2 ^ 1"
  define B where "B = 5 * UU div 2 ^ 2"
  have b1: "0 \<le> A" "A \<le> 2 ^ 18"
    unfolding A_def using asr_bounds [of 0 1 "5 * UU" "2 ^ 18"] Usq by simp_all
  have b2: "0 \<le> B" "B \<le> 2 ^ 17"
    unfolding B_def using asr_bounds [of 0 2 "5 * UU" "2 ^ 17"] Usq by simp_all
  have nl: "\<not> T < - 1500" using t by simp
  have "O2 = (if T < 2000 then O' - A else O')"
    and "S2 = (if T < 2000 then S - B else S)"
    using r nl by (auto simp add: ref_second_order_def Let_def sq1 A_def B_def split: if_splits)
  then show "\<bar>O2\<bar> \<le> 2 ^ 35" "\<bar>S2\<bar> \<le> 2 ^ 34"
    using b1 b2 o s by (simp_all add: abs_le_iff)
qed

text \<open>For all coefficients and all 24-bit raw samples, the code computes the reference
  with that one product cut to 32 bits: no other intermediate value wraps.\<close>

lemma compensate_sint:
  fixes k1 k2 k3 k4 k5 k6 :: "16 word" and d1 d2 :: "32 word"
  assumes d1: "uint d1 < 2 ^ 24" and d2: "uint d2 < 2 ^ 24"
  shows "(case compensate k1 k2 k3 k4 k5 k6 d1 d2 of (temp, p) \<Rightarrow> (sint temp, sint p)) =
    ref_compensate_c6_int32 (uint k1) (uint k2) (uint k3) (uint k4) (uint k5) (uint k6)
      (uint d1) (uint d2)"
proof -
  obtain dt temp off sens where fo: "compute_first_order k1 k2 k3 k4 k5 k6 d2 = (dt, temp, off, sens)"
    by (cases "compute_first_order k1 k2 k3 k4 k5 k6 d2") auto
  obtain dT TEMP OFF SENS where rf:
    "ref_first_order (uint k1) (uint k2) (uint k3) (uint k4) (uint k5) (uint k6) (uint d2) = (dT, TEMP, OFF, SENS)"
    by (cases "ref_first_order (uint k1) (uint k2) (uint k3) (uint k4) (uint k5) (uint k6) (uint d2)") auto
  define Tw where "Tw = 2000 + signed_take_bit 31 (uint k6 * dT) div 2 ^ 23"
  have vals: "sint dt = dT" "sint temp = Tw" "sint off = OFF" "sint sens = SENS"
    using first_order_sint [OF d2, of k1 k2 k3 k4 k5 k6] fo rf
    by (auto simp add: ref_first_order_def Let_def Tw_def)
  have fb: "\<bar>dT\<bar> < 2 ^ 24" "\<bar>OFF\<bar> \<le> 2 ^ 34" "\<bar>SENS\<bar> \<le> 2 ^ 33"
    using ref_first_order_bounds [OF _ _ _ _ _ _ _ _ _ _ _ _ rf] d2
    by (simp_all add: uint16_bounds)
  have tb: "- (2 ^ 8) \<le> Tw - 2000" "Tw - 2000 \<le> 2 ^ 8"
    using wrapped_shift_bounds [of "uint k6 * dT"] by (simp_all add: Tw_def)
  obtain temp' off' sens' where so: "second_order_compensation dt temp off sens = (temp', off', sens')"
    by (cases "second_order_compensation dt temp off sens") auto
  obtain T2 O2 S2 where rs: "ref_second_order dT Tw OFF SENS = (T2, O2, S2)"
    by (cases "ref_second_order dT Tw OFF SENS") auto
  have vals2: "sint temp' = T2" "sint off' = O2" "sint sens' = S2"
    using second_order_compensation_sint [of dt temp off sens] so rs fb tb
    by (simp_all add: vals)
  have sb: "\<bar>O2\<bar> \<le> 2 ^ 35" "\<bar>S2\<bar> \<le> 2 ^ 34"
    using ref_second_order_bounds [OF tb fb(2,3) rs] by simp_all
  have p: "sint (compute_pressure d1 off' sens') = (uint d1 * S2) div 2 ^ 21 - O2"
    using pressure_sint [OF d1, of sens' off'] sb by (simp add: vals2 abs_le_iff)
  have lhs: "(case compensate k1 k2 k3 k4 k5 k6 d1 d2 of (temp, p) \<Rightarrow> (sint temp, sint p)) =
      (T2, (uint d1 * S2) div 2 ^ 21 - O2)"
    by (simp only: compensate_def fo so prod.case vals2 p)
  have rhs: "ref_compensate_c6_int32 (uint k1) (uint k2) (uint k3) (uint k4) (uint k5) (uint k6)
      (uint d1) (uint d2) = (T2, (uint d1 * S2) div 2 ^ 21 - O2)"
    by (simp only: ref_compensate_c6_int32_def rf prod.case Tw_def [symmetric] rs)
  show ?thesis
    by (simp only: lhs rhs)
qed

text \<open>Where the product \<open>C6 * dT\<close> fits 32 signed bits, the code is the reference.\<close>

lemma compensate_refines_reference_if_c6_product_fits:
  fixes k1 k2 k3 k4 k5 k6 :: "16 word" and d1 d2 :: "32 word"
  assumes "uint d1 < 2 ^ 24" and "uint d2 < 2 ^ 24"
    and "- (2 ^ 31) \<le> uint k6 * (uint d2 - uint k5 * 2 ^ 8)"
    and "uint k6 * (uint d2 - uint k5 * 2 ^ 8) < 2 ^ 31"
  shows "(case compensate k1 k2 k3 k4 k5 k6 d1 d2 of (temp, p) \<Rightarrow> (sint temp, sint p)) =
    ref_compensate (uint k1) (uint k2) (uint k3) (uint k4) (uint k5) (uint k6) (uint d1) (uint d2)"
proof -
  have "signed_take_bit 31 (uint k6 * (uint d2 - uint k5 * 2 ^ 8)) = uint k6 * (uint d2 - uint k5 * 2 ^ 8)"
    by (rule signed_take_bit_int_eq_self) (use assms(3,4) in simp_all)
  then have "ref_compensate_c6_int32 (uint k1) (uint k2) (uint k3) (uint k4) (uint k5) (uint k6) (uint d1) (uint d2)
      = ref_compensate (uint k1) (uint k2) (uint k3) (uint k4) (uint k5) (uint k6) (uint d1) (uint d2)"
    by (simp add: ref_compensate_c6_int32_def ref_compensate_def ref_first_order_def Let_def)
  then show ?thesis
    using compensate_sint [OF assms(1,2), of k1 k2 k3 k4 k5 k6] by simp
qed

text \<open>The first order \<open>temp\<close> of the code always lies between 17.44 and 22.56 degrees, so
  the test \<open>temp < -1500\<close> of line 283 never succeeds inside \<open>ms5611_updateData\<close>.\<close>

lemma first_order_temp_range:
  fixes k1 k2 k3 k4 k5 k6 :: "16 word" and d2 :: "32 word"
  assumes "uint d2 < 2 ^ 24"
    and "compute_first_order k1 k2 k3 k4 k5 k6 d2 = (dt, temp, off, sens)"
  shows "1744 \<le> sint temp" and "sint temp \<le> 2256" and "\<not> temp <s - 1500"
proof -
  have t: "sint temp = 2000 + signed_take_bit 31 (uint k6 * (uint d2 - uint k5 * 2 ^ 8)) div 2 ^ 23"
    using first_order_sint [OF assms(1), of k1 k2 k3 k4 k5 k6] assms(2) by simp
  show "1744 \<le> sint temp" and "sint temp \<le> 2256"
    unfolding t using wrapped_shift_bounds [of "uint k6 * (uint d2 - uint k5 * 2 ^ 8)"] by simp_all
  then show "\<not> temp <s - 1500"
    by (simp add: word_sless_alt)
qed

section \<open>The sampler, the lock and the public functions\<close>

lemmas step_defs = ms5611_readStep_def ms5611_readTempStep_def ms5611_readPressureStep_def
  ms5611_getDigitalValue_def ms5611_convertD1_def ms5611_convertD2_def

lemmas init_defs = ms5611_init_def ms5611_setTimer_def delay_def ms5611_convertD1_def
  ms5611_resetCommand_def ms5611_getPROMValue_def

lemma steps_run_readStep: "steps_run (ms5611_readStep r s) = steps_run s + 1"
  by (simp add: steps_run_def step_defs Let_def split: prod.splits)

lemma readSteps_snoc: "ms5611_readSteps (rs @ [r]) s = ms5611_readStep r (ms5611_readSteps rs s)"
  by (induction rs arbitrary: s) simp_all

lemma measureStep_readStep:
  "measureStep (ms5611_readStep r s) =
    (if measureStep s = MS5611_STEP_READ_TEMP then MS5611_STEP_READ_PRESSURE
     else MS5611_STEP_READ_TEMP)"
  by (simp add: ms5611_readStep_def)

lemma measureStep_readSteps:
  "measureStep s = MS5611_STEP_READ_TEMP \<Longrightarrow>
    measureStep (ms5611_readSteps rs s) =
      (if even (length rs) then MS5611_STEP_READ_TEMP else MS5611_STEP_READ_PRESSURE)"
  by (induction rs rule: rev_induct) (simp_all add: readSteps_snoc measureStep_readStep)

subsection \<open>What keeps the calibration\<close>

lemma calibration_kept_refl: "calibration_kept s s"
  by (simp add: calibration_kept_def)

lemma calibration_kept_trans:
  "calibration_kept s s' \<Longrightarrow> calibration_kept s' s'' \<Longrightarrow> calibration_kept s s''"
  by (simp add: calibration_kept_def)

lemma readStep_kept: "calibration_kept s (ms5611_readStep r s)"
  by (simp add: calibration_kept_def coefficients_def step_defs Let_def split: prod.splits)

lemma lock_kept: "calibration_kept s (ms5611_lock s)"
  by (simp add: calibration_kept_def coefficients_def ms5611_lock_def)

lemma release_kept: "calibration_kept s (ms5611_release r s)"
  by (simp add: calibration_kept_def coefficients_def ms5611_release_def step_defs Let_def
      split: prod.splits)

lemma isr_kept: "calibration_kept s (ISR_TIMER2_COMPA_vect r s)"
  by (simp add: calibration_kept_def coefficients_def ISR_TIMER2_COMPA_vect_def step_defs Let_def
      split: prod.splits)

lemma store_compensated_kept:
  "calibration_kept s s' \<Longrightarrow> calibration_kept s (store_compensated d1 d2 s')"
  by (simp add: calibration_kept_def coefficients_def store_compensated_def Let_def
      split: prod.splits)

lemma updateData_kept: "calibration_kept s (ms5611_updateData r s)"
  unfolding ms5611_updateData_def Let_def
  by (rule store_compensated_kept)
    (simp add: calibration_kept_def coefficients_def ms5611_lock_def ms5611_release_def step_defs
      Let_def split: prod.splits)

lemma init_again_kept:
  "deviceReset s \<Longrightarrow> calibration_kept s (ms5611_init cmp p0 p1 p2 p3 p4 p5 s)"
  by (simp add: calibration_kept_def coefficients_def ms5611_init_def ms5611_setTimer_def
      delay_def ms5611_convertD1_def Let_def)

lemma run_call_kept: "deviceReset s \<Longrightarrow> calibration_kept s (run_call c s)"
  by (cases c)
    (simp_all add: readStep_kept lock_kept release_kept updateData_kept isr_kept init_again_kept
      calibration_kept_refl)

lemma run_calls_kept: "deviceReset s \<Longrightarrow> calibration_kept s (run_calls cs s)"
proof (induction cs arbitrary: s)
  case Nil
  then show ?case by (simp add: calibration_kept_refl)
next
  case (Cons c cs)
  have k1: "calibration_kept s (run_call c s)"
    by (rule run_call_kept) (rule Cons.prems)
  then have "deviceReset (run_call c s)"
    using Cons.prems by (simp add: calibration_kept_def)
  then have "calibration_kept (run_call c s) (run_calls cs (run_call c s))"
    by (rule Cons.IH)
  with k1 show ?case
    by (simp add: calibration_kept_trans)
qed

lemma first_init:
  assumes "\<not> deviceReset s"
  shows "coefficients (ms5611_init cmp p0 p1 p2 p3 p4 p5 s) =
      (fst (ms5611_getPROMValue 0 p0 s), fst (ms5611_getPROMValue 1 p1 s),
       fst (ms5611_getPROMValue 2 p2 s), fst (ms5611_getPROMValue 3 p3 s),
       fst (ms5611_getPROMValue 4 p4 s), fst (ms5611_getPROMValue 5 p5 s))"
    and "deviceReset (ms5611_init cmp p0 p1 p2 p3 p4 p5 s)"
    and "bus (ms5611_init cmp p0 p1 p2 p3 p4 p5 s) = bus s @
      [I2C_writeBytes MS5611_CMD_RESET, Delay MS5611_RESET_DELAY,
       I2C_readBytes (MS5611_CMD_READ_PROM_plus 0) 2, I2C_readBytes (MS5611_CMD_READ_PROM_plus 2) 2,
       I2C_readBytes (MS5611_CMD_READ_PROM_plus 4) 2, I2C_readBytes (MS5611_CMD_READ_PROM_plus 6) 2,
       I2C_readBytes (MS5611_CMD_READ_PROM_plus 8) 2, I2C_readBytes (MS5611_CMD_READ_PROM_plus 10) 2,
       I2C_writeBytes MS5611_CMD_CONV_D1, Delay MS5611_CONV_DELAY]"
  using assms by (simp_all add: coefficients_def init_defs Let_def split: prod.splits)

subsection \<open>The update\<close>

lemma store_compensated_values:
  "compensatedTemperature (store_compensated d1 d2 s) =
     real_of_int (sint (fst (compensate (c1 s) (c2 s) (c3 s) (c4 s) (c5 s) (c6 s) d1 d2))) / 100"
  "compensatedPressure (store_compensated d1 d2 s) =
     real_of_int (sint (snd (compensate (c1 s) (c2 s) (c3 s) (c4 s) (c5 s) (c6 s) d1 d2))) / 32768 / 100"
  by (simp_all add: store_compensated_def Let_def split: prod.splits)

lemma store_compensated_frame:
  "d1i (store_compensated d1 d2 s) = d1i s" "d2i (store_compensated d1 d2 s) = d2i s"
  "coefficients (store_compensated d1 d2 s) = coefficients s"
  "interruptWait (store_compensated d1 d2 s) = interruptWait s"
  "newData (store_compensated d1 d2 s) = newData s"
  "locked (store_compensated d1 d2 s) = locked s"
  by (simp_all add: store_compensated_def coefficients_def Let_def split: prod.splits)

lemma release_idle:
  "\<not> interruptWait s \<Longrightarrow> ms5611_release r s = s\<lparr>locked := False\<rparr>"
  by (simp add: ms5611_release_def Let_def)

lemma release_coefficients: "coefficients (ms5611_release r s) = coefficients s"
  using release_kept [of s r] by (simp add: calibration_kept_def)

lemma release_unlocks: "\<not> locked (ms5611_release r s)"
  by (simp add: ms5611_release_def step_defs Let_def split: prod.splits)

lemma updateData_outputs:
  "compensatedTemperature (ms5611_updateData r s) =
     real_of_int (sint (fst (compensate (c1 s) (c2 s) (c3 s) (c4 s) (c5 s) (c6 s) (d1i s) (d2i s)))) / 100"
  "compensatedPressure (ms5611_updateData r s) =
     real_of_int (sint (snd (compensate (c1 s) (c2 s) (c3 s) (c4 s) (c5 s) (c6 s) (d1i s) (d2i s)))) / 32768 / 100"
  using release_coefficients [of r "s\<lparr>locked := True, newData := False\<rparr>"]
  by (simp_all add: ms5611_updateData_def Let_def store_compensated_values ms5611_lock_def
      coefficients_def)

lemma updateData_idle:
  assumes "\<not> interruptWait s"
  shows "ms5611_updateData r s =
    store_compensated (d1i s) (d2i s) (s\<lparr>newData := False, locked := False\<rparr>)"
  using assms by (simp add: ms5611_updateData_def Let_def ms5611_lock_def release_idle)

lemma timer_interrupt_locked:
  "locked s \<Longrightarrow> timer_interrupt i s = s\<lparr>interruptWait := interruptWait s \<or> fired i\<rparr>"
  by (cases i) (simp_all add: timer_interrupt_def fired_def ISR_TIMER2_COMPA_vect_def)

lemma critical_section:
  "updateData_critical_section i1 i2 i3 i4 s =
    (d1i s, d2i s,
     s\<lparr>locked := True, newData := False,
       interruptWait := interruptWait s \<or> fired i1 \<or> fired i2 \<or> fired i3 \<or> fired i4\<rparr>)"
  by (simp add: updateData_critical_section_def Let_def ms5611_lock_def timer_interrupt_locked
      disj.assoc)

lemma updateData_preempted_eq:
  "ms5611_updateData_preempted i1 i2 i3 i4 r s =
    store_compensated (d1i s) (d2i s)
      (ms5611_release r
        (s\<lparr>locked := True, newData := False,
           interruptWait := interruptWait s \<or> fired i1 \<or> fired i2 \<or> fired i3 \<or> fired i4\<rparr>))"
  by (simp add: ms5611_updateData_preempted_def critical_section Let_def)

text \<open>The example of the data sheet: after initialisation and two ticks, the update stores
  20.07 degrees and 1000.09 mbar.\<close>

lemma data_sheet_example:
  "compensatedTemperature (ms5611_updateData raw_d1 sampling_state) = 2007 / 100
   \<and> compensatedPressure (ms5611_updateData raw_d1 sampling_state) = 3277097212 / 32768 / 100
   \<and> \<not> newData (ms5611_updateData raw_d1 sampling_state)"
  by (simp add: sampling_state_def quiet_state_def raw_d1_def raw_d2_def prom_word1_def
      prom_word2_def prom_word3_def prom_word4_def prom_word5_def prom_word6_def
      ISR_TIMER2_COMPA_vect_def step_defs init_defs Let_def ms5611_updateData_def ms5611_lock_def
      ms5611_release_def store_compensated_def compensate_def compute_first_order_def
      second_order_compensation_def compute_pressure_def word_sless_alt)

text \<open>A negative stored pressure can be reached: initialisation with six PROM words
  4660 and an update on raw samples that are still zero. The altitude is then NaN.\<close>

lemma negative_pressure_example:
  "compensatedPressure (ms5611_updateData raw_d1
      (ms5611_init 9 timed_out_prom_read timed_out_prom_read timed_out_prom_read
         timed_out_prom_read timed_out_prom_read timed_out_prom_read quiet_state)) < 0
   \<and> ms5611_getAltitude 1013.25 (ms5611_updateData raw_d1
      (ms5611_init 9 timed_out_prom_read timed_out_prom_read timed_out_prom_read
         timed_out_prom_read timed_out_prom_read timed_out_prom_read quiet_state)) = NaN"
  by (simp add: quiet_state_def timed_out_prom_read_def init_defs Let_def ms5611_updateData_def
      ms5611_lock_def ms5611_release_def store_compensated_def compensate_def
      compute_first_order_def second_order_compensation_def compute_pressure_def word_sless_alt
      ms5611_getAltitude_def double_div_def)

text \<open>At half the reference pressure the altitude is a number strictly between 0 and
  \<open>288.15 / 0.0065\<close>.\<close>

lemma half_pressure_example:
  "ms5611_getAltitude 1000 (quiet_state\<lparr>compensatedPressure := 500\<rparr>) =
      Finite ((1 - (1 / 2) powr 0.1902949572) * (288.15 / 0.0065))
   \<and> 0 < (1 - (1 / 2 :: real) powr 0.1902949572) * (288.15 / 0.0065)
   \<and> (1 - (1 / 2 :: real) powr 0.1902949572) * (288.15 / 0.0065) < 288.15 / 0.0065"
proof -
  define h where "h = (1 / 2 :: real) powr 0.1902949572"
  have "h < 1"
    unfolding h_def by (simp add: powr01_less_one)
  moreover have "0 < h"
    unfolding h_def by simp
  moreover have "ms5611_getAltitude 1000 (quiet_state\<lparr>compensatedPressure := 500\<rparr>) =
      Finite ((1 - h) * (288.15 / 0.0065))"
    unfolding h_def by (simp add: ms5611_getAltitude_def double_div_def quiet_state_def)
  ultimately show ?thesis
    unfolding h_def [symmetric] by simp
qed

section \<open>The claims\<close>

subsection \<open>C1: no intermediate of the compensation overflows\<close>

text \<open>
  Claim C1 says that every product of the compensation that can exceed 32 bits, the product
  \<open>dT * C6\<close> among them, is computed in 64 signed bits, so that the result is the one of
  unbounded arithmetic. The code multiplies \<open>c6s\<close> by \<open>dt\<close> in an \<open>int32_t\<close> (lines 239-240),
  while the sibling products \<open>c4d\<close> and \<open>c3d\<close> are \<open>int64_t\<close>. With the calibration of the data
  sheet and \<open>D2 = 8666784\<close> (23.37 degrees), \<open>dT = 100000\<close> and \<open>C6 * dT = 2831200000\<close> is not
  below \<open>2^31\<close>: the 32-bit product is \<open>-1463767296\<close> and the code's first order temperature
  is 1825 where the reference gives 2337.
\<close>

theorem c6_times_dt_wraps_in_int32:
  "(case compute_first_order 40127 36924 23317 23282 33464 28312 8666784 of
      (dt, temp, off, sens) \<Rightarrow> (sint dt, sint temp)) = (100000, 1825)
   \<and> (case ref_first_order 40127 36924 23317 23282 33464 28312 8666784 of
      (dT, TEMP, OFF, SENS) \<Rightarrow> (dT, TEMP)) = (100000, 2337)
   \<and> (28312 :: int) * 100000 = 2831200000 \<and> (2 :: int) ^ 31 \<le> 2831200000
   \<and> sint ((28312 :: 32 word) * 100000) = - 1463767296"
  by (simp add: compute_first_order_def ref_first_order_def)

subsection \<open>C2: the compensation is the reference algorithm\<close>

text \<open>
  Claim C2 says that for all coefficients and all 24-bit raw samples \<open>ms5611_updateData\<close>
  computes the reference algorithm of section 4.3 exactly. At the input of C1, with
  \<open>D1 = 9085466\<close>, the code ends with \<open>temp = 1821\<close> and \<open>p = 3297774969\<close> (18.21 degrees,
  1006.40 mbar) and the reference with \<open>TEMP = 2337\<close> and \<open>P = 3297864252\<close> (23.37 degrees,
  1006.43 mbar): the wrapped product of C1 also sends the code through the second order
  branch. Lemma \<open>compensate_sint\<close> shows that this product is the only difference.
\<close>

theorem compensate_differs_from_reference:
  "(case compensate 40127 36924 23317 23282 33464 28312 9085466 8666784 of
      (temp, p) \<Rightarrow> (sint temp, sint p)) = (1821, 3297774969)
   \<and> ref_compensate 40127 36924 23317 23282 33464 28312 9085466 8666784 = (2337, 3297864252)"
  by (simp add: compensate_def compute_first_order_def second_order_compensation_def
      compute_pressure_def Let_def word_sless_alt ref_compensate_def ref_first_order_def
      ref_second_order_def)

subsection \<open>C3: a tick that arrives under the lock is run once by release\<close>

text \<open>
  Claim C3. If the timer interrupt fires while \<open>locked\<close> is set, the handler only sets
  \<open>interruptWait\<close>: \<open>d1i\<close>, \<open>d2i\<close>, \<open>measureStep\<close>, \<open>newData\<close> and the bus are untouched. The next
  \<open>ms5611_release\<close> then runs \<open>ms5611_readStep\<close> exactly once, sets the timer counter to
  zero and clears \<open>interruptWait\<close>; a further release runs no step. The handler and
  \<open>ms5611_release\<close> are each taken as one indivisible transition.
\<close>

theorem deferred_step_runs_once_on_release:
  assumes "locked s"
  shows "ISR_TIMER2_COMPA_vect r1 s = s\<lparr>interruptWait := True\<rparr>
    \<and> d1i (ISR_TIMER2_COMPA_vect r1 s) = d1i s
    \<and> d2i (ISR_TIMER2_COMPA_vect r1 s) = d2i s
    \<and> measureStep (ISR_TIMER2_COMPA_vect r1 s) = measureStep s
    \<and> newData (ISR_TIMER2_COMPA_vect r1 s) = newData s
    \<and> bus (ISR_TIMER2_COMPA_vect r1 s) = bus s
    \<and> ms5611_release r2 (ISR_TIMER2_COMPA_vect r1 s) =
        (ms5611_readStep r2 (s\<lparr>interruptWait := True, locked := False\<rparr>))
          \<lparr>TCNT2 := 0, interruptWait := False\<rparr>
    \<and> steps_run (ms5611_release r2 (ISR_TIMER2_COMPA_vect r1 s)) = steps_run s + 1
    \<and> TCNT2 (ms5611_release r2 (ISR_TIMER2_COMPA_vect r1 s)) = 0
    \<and> \<not> interruptWait (ms5611_release r2 (ISR_TIMER2_COMPA_vect r1 s))
    \<and> \<not> locked (ms5611_release r2 (ISR_TIMER2_COMPA_vect r1 s))
    \<and> steps_run (ms5611_release r3 (ms5611_release r2 (ISR_TIMER2_COMPA_vect r1 s))) =
        steps_run s + 1"
proof -
  have isr: "ISR_TIMER2_COMPA_vect r1 s = s\<lparr>interruptWait := True\<rparr>"
    using assms by (simp add: ISR_TIMER2_COMPA_vect_def)
  have rel: "ms5611_release r2 (s\<lparr>interruptWait := True\<rparr>) =
      (ms5611_readStep r2 (s\<lparr>interruptWait := True, locked := False\<rparr>))
        \<lparr>TCNT2 := 0, interruptWait := False\<rparr>"
    by (simp add: ms5611_release_def Let_def)
  have n1: "steps_run (ms5611_release r2 (s\<lparr>interruptWait := True\<rparr>)) = steps_run s + 1"
    unfolding rel by (simp add: steps_run_def step_defs Let_def split: prod.splits)
  have flags: "\<not> interruptWait (ms5611_release r2 (s\<lparr>interruptWait := True\<rparr>))"
    "\<not> locked (ms5611_release r2 (s\<lparr>interruptWait := True\<rparr>))"
    "TCNT2 (ms5611_release r2 (s\<lparr>interruptWait := True\<rparr>)) = 0"
    unfolding rel by (simp_all add: step_defs Let_def split: prod.splits)
  have again:
    "steps_run (ms5611_release r3 (ms5611_release r2 (s\<lparr>interruptWait := True\<rparr>))) = steps_run s + 1"
    using flags(1) n1 by (simp add: ms5611_release_def Let_def steps_run_def)
  show ?thesis
    unfolding isr using rel n1 flags again by simp
qed

text \<open>Witness for C3: the first tick of \<open>quiet_state\<close>, arriving under the lock.\<close>

theorem deferred_step_runs_once_on_release_witness:
  "locked (quiet_state\<lparr>locked := True\<rparr>)
   \<and> steps_run (quiet_state\<lparr>locked := True\<rparr>) = 0
   \<and> interruptWait (ISR_TIMER2_COMPA_vect raw_d1 (quiet_state\<lparr>locked := True\<rparr>))
   \<and> steps_run (ms5611_release raw_d1
        (ISR_TIMER2_COMPA_vect raw_d1 (quiet_state\<lparr>locked := True\<rparr>))) = 1
   \<and> steps_run (ms5611_release raw_d2 (ms5611_release raw_d1
        (ISR_TIMER2_COMPA_vect raw_d1 (quiet_state\<lparr>locked := True\<rparr>)))) = 1"
proof -
  have l: "locked (quiet_state\<lparr>locked := True\<rparr>)"
    by (simp add: quiet_state_def)
  have z: "steps_run (quiet_state\<lparr>locked := True\<rparr>) = 0"
    by (simp add: quiet_state_def steps_run_def)
  note w = deferred_step_runs_once_on_release [OF l, of raw_d1 raw_d1 raw_d2]
  from w have "ISR_TIMER2_COMPA_vect raw_d1 (quiet_state\<lparr>locked := True\<rparr>) =
      quiet_state\<lparr>locked := True, interruptWait := True\<rparr>"
    by blast
  then have i: "interruptWait (ISR_TIMER2_COMPA_vect raw_d1 (quiet_state\<lparr>locked := True\<rparr>))"
    by simp
  from w have a: "steps_run (ms5611_release raw_d1
        (ISR_TIMER2_COMPA_vect raw_d1 (quiet_state\<lparr>locked := True\<rparr>))) =
      steps_run (quiet_state\<lparr>locked := True\<rparr>) + 1"
    by blast
  from w have b: "steps_run (ms5611_release raw_d2 (ms5611_release raw_d1
        (ISR_TIMER2_COMPA_vect raw_d1 (quiet_state\<lparr>locked := True\<rparr>)))) =
      steps_run (quiet_state\<lparr>locked := True\<rparr>) + 1"
    by blast
  show ?thesis
    using l z i a b by simp
qed

subsection \<open>C4: the sampler alternates and sets the flag on every second call\<close>

text \<open>
  Claim C4. Starting with \<open>measureStep = MS5611_STEP_READ_TEMP\<close>, the call number \<open>k + 1\<close>
  of \<open>ms5611_readStep\<close> finds the state left by the \<open>k\<close> calls before it. An odd-numbered
  call finds \<open>MS5611_STEP_READ_TEMP\<close>, reads into \<open>d1i\<close>, starts the D2 conversion, leaves
  \<open>newData\<close> as it was and moves to \<open>MS5611_STEP_READ_PRESSURE\<close>. An even-numbered call finds
  \<open>MS5611_STEP_READ_PRESSURE\<close>, reads into \<open>d2i\<close>, starts the D1 conversion (D1 is the raw
  pressure), sets \<open>newData\<close> and moves back.
\<close>

theorem readStep_alternates:
  assumes "measureStep s = MS5611_STEP_READ_TEMP" and "k < length rs"
  shows "let before = ms5611_readSteps (take k rs) s;
             after = ms5611_readStep (rs ! k) before
         in ms5611_readSteps (take (Suc k) rs) s = after \<and>
            (if odd (Suc k) then
               measureStep before = MS5611_STEP_READ_TEMP \<and>
               measureStep after = MS5611_STEP_READ_PRESSURE \<and>
               d1i after = fst (ms5611_getDigitalValue (rs ! k) (d1i before) before) \<and>
               d2i after = d2i before \<and>
               newData after = newData before \<and>
               bus after = bus before @
                 [I2C_readBytes MS5611_CMD_ADC_READ 3, I2C_writeBytes MS5611_CMD_CONV_D2]
             else
               measureStep before = MS5611_STEP_READ_PRESSURE \<and>
               measureStep after = MS5611_STEP_READ_TEMP \<and>
               d2i after = fst (ms5611_getDigitalValue (rs ! k) (d2i before) before) \<and>
               d1i after = d1i before \<and>
               newData after \<and>
               bus after = bus before @
                 [I2C_readBytes MS5611_CMD_ADC_READ 3, I2C_writeBytes MS5611_CMD_CONV_D1])"
proof -
  define before where "before = ms5611_readSteps (take k rs) s"
  have len: "length (take k rs) = k"
    using assms(2) by simp
  have m: "measureStep before =
      (if even k then MS5611_STEP_READ_TEMP else MS5611_STEP_READ_PRESSURE)"
    unfolding before_def using measureStep_readSteps [OF assms(1), of "take k rs"] len by simp
  have next_state: "ms5611_readSteps (take (Suc k) rs) s = ms5611_readStep (rs ! k) before"
    unfolding before_def using assms(2) by (simp add: take_Suc_conv_app_nth readSteps_snoc)
  show ?thesis
  proof (cases "even k")
    case True
    then show ?thesis
      unfolding Let_def before_def [symmetric] next_state using m
      by (simp add: step_defs Let_def split: prod.splits)
  next
    case False
    then show ?thesis
      unfolding Let_def before_def [symmetric] next_state using m
      by (simp add: step_defs Let_def split: prod.splits)
  qed
qed

text \<open>Witness for C4: the first and the second call from \<open>quiet_state\<close>.\<close>

theorem readStep_alternates_witness:
  "measureStep quiet_state = MS5611_STEP_READ_TEMP \<and> (1 :: nat) < length [raw_d1, raw_d2]
   \<and> measureStep (ms5611_readSteps [raw_d1] quiet_state) = MS5611_STEP_READ_PRESSURE
   \<and> measureStep (ms5611_readSteps [raw_d1, raw_d2] quiet_state) = MS5611_STEP_READ_TEMP
   \<and> \<not> newData (ms5611_readSteps [raw_d1] quiet_state)
   \<and> newData (ms5611_readSteps [raw_d1, raw_d2] quiet_state)"
  using readStep_alternates [of quiet_state 1 "[raw_d1, raw_d2]"]
    readStep_alternates [of quiet_state 0 "[raw_d1, raw_d2]"]
  by (simp add: quiet_state_def Let_def)

subsection \<open>C5: the second order corrections\<close>

text \<open>
  Claim C5 says that in \<open>ms5611_updateData\<close> the corrections \<open>T2\<close>, \<open>OFF2\<close> and \<open>SENS2\<close> are
  applied once when \<open>TEMP < 2000\<close>, with the extra terms when \<open>TEMP < -1500\<close>. The block of
  lines 268-294 does so for the \<open>temp\<close> it is given (lemma \<open>second_order_compensation_sint\<close>),
  but the \<open>temp\<close> it is given is the one of the wrapped product of C1. With the calibration
  of the data sheet and \<open>D1 = 9085466\<close>: at \<open>D2 = 8418638\<close> the reference has \<open>TEMP = 1499\<close> and
  corrects it, the code has \<open>temp = 2011\<close> and applies no correction; at \<open>D2 = 7529604\<close> the
  reference has \<open>TEMP = -1501\<close> and adds the extra terms, the code has \<open>temp = 2083\<close> and
  applies nothing.
\<close>

theorem second_order_correction_missed_when_cold:
  "(case compute_first_order 40127 36924 23317 23282 33464 28312 8418638 of
      (dt, temp, off, sens) \<Rightarrow> (sint dt, sint temp)) = (- 148146, 2011)
   \<and> (case ref_first_order 40127 36924 23317 23282 33464 28312 8418638 of
      (dT, TEMP, OFF, SENS) \<Rightarrow> (dT, TEMP)) = (- 148146, 1499)
   \<and> (case compensate 40127 36924 23317 23282 33464 28312 9085466 8418638 of
      (temp, p) \<Rightarrow> (sint temp, sint p)) = (2011, 3245082865)
   \<and> ref_compensate 40127 36924 23317 23282 33464 28312 9085466 8418638 = (1489, 3244351107)
   \<and> (case compute_first_order 40127 36924 23317 23282 33464 28312 7529604 of
      (dt, temp, off, sens) \<Rightarrow> (sint dt, sint temp)) = (- 1037180, 2083)
   \<and> (case ref_first_order 40127 36924 23317 23282 33464 28312 7529604 of
      (dT, TEMP, OFF, SENS) \<Rightarrow> (dT, TEMP)) = (- 1037180, - 1501)
   \<and> fst (compensate 40127 36924 23317 23282 33464 28312 9085466 7529604) = 2083"
  by (simp add: compensate_def compute_first_order_def second_order_compensation_def
      compute_pressure_def Let_def word_sless_alt ref_compensate_def ref_first_order_def
      ref_second_order_def)

subsection \<open>C6: the snapshot is taken and the flag cleared under the lock\<close>

text \<open>
  Claim C6 says that \<open>ms5611_updateData\<close> locks, copies \<open>d1i\<close> and \<open>d2i\<close> and clears \<open>newData\<close>
  in one critical section, releases before the arithmetic and returns unlocked, and that
  \<open>newData\<close> is never cleared outside that critical section. The last part fails:
  \<open>ms5611_init\<close> clears \<open>newData\<close> (line 203) and never takes the lock. In \<open>sampling_state\<close>
  the driver is initialised and unlocked and a pair of samples is waiting; a second call of
  \<open>ms5611_init\<close> clears the flag with the lock free throughout.
\<close>

theorem init_clears_newData_without_lock:
  "newData sampling_state \<and> \<not> locked sampling_state
   \<and> \<not> newData (ms5611_init 9 prom_word1 prom_word2 prom_word3 prom_word4 prom_word5 prom_word6
         sampling_state)
   \<and> \<not> locked (ms5611_init 9 prom_word1 prom_word2 prom_word3 prom_word4 prom_word5 prom_word6
         sampling_state)"
  by (simp add: sampling_state_def quiet_state_def raw_d1_def raw_d2_def prom_word1_def
      prom_word2_def prom_word3_def prom_word4_def prom_word5_def prom_word6_def
      ISR_TIMER2_COMPA_vect_def step_defs init_defs Let_def)

text \<open>
  Claim C6, amended. Whatever timer interrupts arrive between the statements of lines
  226-230, the copies are the \<open>d1i\<close> and \<open>d2i\<close> of the state \<open>ms5611_updateData\<close> was called
  in, and before the release the state differs from that one only in \<open>locked\<close> (set),
  \<open>newData\<close> (cleared) and \<open>interruptWait\<close> (set if an interrupt arrived). The arithmetic
  is done on the copies after \<open>ms5611_release\<close>, and \<open>locked\<close> is false on return. Inside
  \<open>ms5611_updateData\<close> the flag is cleared only there; \<open>ms5611_init\<close> clears it too, and
  leaves \<open>locked\<close> as it finds it.
\<close>

theorem updateData_snapshot_in_critical_section:
  "updateData_critical_section i1 i2 i3 i4 s =
      (d1i s, d2i s,
       s\<lparr>locked := True, newData := False,
         interruptWait := interruptWait s \<or> fired i1 \<or> fired i2 \<or> fired i3 \<or> fired i4\<rparr>)
   \<and> ms5611_updateData_preempted i1 i2 i3 i4 r s =
      store_compensated (d1i s) (d2i s)
        (ms5611_release r
          (s\<lparr>locked := True, newData := False,
             interruptWait := interruptWait s \<or> fired i1 \<or> fired i2 \<or> fired i3 \<or> fired i4\<rparr>))
   \<and> ms5611_updateData_preempted None None None None r s = ms5611_updateData r s
   \<and> \<not> locked (ms5611_updateData_preempted i1 i2 i3 i4 r s)
   \<and> \<not> locked (ms5611_updateData r s)
   \<and> \<not> newData (ms5611_init cmp p0 p1 p2 p3 p4 p5 s)
   \<and> locked (ms5611_init cmp p0 p1 p2 p3 p4 p5 s) = locked s"
proof -
  have plain: "ms5611_updateData_preempted None None None None r s = ms5611_updateData r s"
    by (simp add: updateData_preempted_eq fired_def ms5611_updateData_def ms5611_lock_def Let_def)
  have unl: "\<not> locked (ms5611_updateData_preempted i1 i2 i3 i4 r s)" for i1 i2 i3 i4
    by (simp add: updateData_preempted_eq store_compensated_frame release_unlocks)
  have init: "\<not> newData (ms5611_init cmp p0 p1 p2 p3 p4 p5 s)"
    "locked (ms5611_init cmp p0 p1 p2 p3 p4 p5 s) = locked s"
    by (simp_all add: init_defs Let_def split: prod.splits)
  show ?thesis
    using critical_section [of i1 i2 i3 i4 s] updateData_preempted_eq [of i1 i2 i3 i4 r s] plain
      unl [of i1 i2 i3 i4] unl [of None None None None] init
    by (simp only: plain) simp
qed

subsection \<open>C7: a failed bus read\<close>

text \<open>
  Claim C7 says that a failed bus read leaves the destination of \<open>ms5611_getDigitalValue\<close>
  and of \<open>ms5611_getPROMValue\<close> unchanged. Neither function looks at the status of
  \<open>readBytes\<close>. After a read that timed out with the bytes 18, 52, 86 in the buffer, the
  first step overwrites \<open>d1i = 0\<close>, and \<open>ms5611_init\<close> overwrites \<open>c1 = 0\<close> likewise.
\<close>

theorem failed_read_changes_value:
  "read_failed 3 timed_out_adc_read
   \<and> d1i (ms5611_readStep timed_out_adc_read quiet_state) \<noteq> d1i quiet_state
   \<and> read_failed 2 timed_out_prom_read
   \<and> c1 (ms5611_init 9 timed_out_prom_read timed_out_prom_read timed_out_prom_read
        timed_out_prom_read timed_out_prom_read timed_out_prom_read quiet_state) \<noteq> c1 quiet_state"
  by (simp add: read_failed_def timed_out_adc_read_def timed_out_prom_read_def quiet_state_def
      step_defs init_defs Let_def)

text \<open>
  Claim C7, amended. Whatever status the transaction returns, \<open>ms5611_getDigitalValue\<close>
  replaces its destination, whatever it held, by the 24-bit number made of the three
  bytes of the buffer, most significant first, and \<open>ms5611_getPROMValue\<close> returns the 16-bit
  number made of the two bytes of its buffer; the two steps store that number in \<open>d1i\<close> and
  \<open>d2i\<close>. After a failed transaction the value is what the buffer happened to hold.
\<close>

theorem reads_overwrite_whatever_the_status:
  "uint (fst (ms5611_getDigitalValue \<lparr>rb_count = n, rb_data = (b0, b1, b2)\<rparr> val s)) =
      uint b0 * 65536 + uint b1 * 256 + uint b2
   \<and> uint (fst (ms5611_getPROMValue a \<lparr>rb_count = m, rb_data = (e0, e1)\<rparr> s)) =
      uint e0 * 256 + uint e1
   \<and> d1i (ms5611_readTempStep \<lparr>rb_count = n, rb_data = (b0, b1, b2)\<rparr> s) =
      fst (ms5611_getDigitalValue \<lparr>rb_count = n, rb_data = (b0, b1, b2)\<rparr> val s)
   \<and> d2i (ms5611_readPressureStep \<lparr>rb_count = n, rb_data = (b0, b1, b2)\<rparr> s) =
      fst (ms5611_getDigitalValue \<lparr>rb_count = n, rb_data = (b0, b1, b2)\<rparr> val s)"
  by (simp add: step_defs ms5611_getPROMValue_def Let_def assemble_24 assemble_16)

subsection \<open>C8: the altitude\<close>

text \<open>
  Claim C8 says that \<open>getAltitude\<close> returns \<open>(288.15 / 0.0065) (1 - (p / ref)^(1 / 5.25529))\<close>
  for a reference pressure passed as parameter. The function has no parameter: the
  reference is the macro \<open>MS5611_BASE_SEA_PRESSURE\<close>; and the exponent is the constant
  \<open>0.1902949572\<close>, which the code's comment gives as \<open>1 / 5.255\<close>. With the stored pressure
  500 and the reference 1000 the two formulas differ.
\<close>

theorem getAltitude_exponent_differs:
  "ms5611_getAltitude 1000 (quiet_state\<lparr>compensatedPressure := 500\<rparr>) \<noteq>
    Finite ((288.15 / 0.0065) * (1 - (500 / 1000) powr (1 / 5.25529)))"
  by (simp add: ms5611_getAltitude_def double_div_def quiet_state_def powr_inj)

text \<open>
  Claim C8, amended. For every stored pressure \<open>p\<close>, \<open>ms5611_getAltitude\<close> returns
  \<open>(288.15 / 0.0065) (1 - (p / MS5611_BASE_SEA_PRESSURE)^0.1902949572)\<close> as \<open>pow\<close> computes
  it: a number when the macro is not zero and the quotient is not negative, NaN when the
  quotient is negative or is \<open>0 / 0\<close>, and minus infinity when a pressure other than zero is
  divided by a zero macro. The exponent is \<open>1 / 5.255\<close> to ten decimal places.
\<close>

theorem getAltitude_formula:
  "ms5611_getAltitude base s =
    (if base = 0 then (if compensatedPressure s = 0 then NaN else Minus_infinity)
     else if compensatedPressure s / base < 0 then NaN
     else Finite ((288.15 / 0.0065) * (1 - (compensatedPressure s / base) powr 0.1902949572)))
   \<and> \<bar>0.1902949572 - 1 / (5.255 :: real)\<bar> < 1 / 10 ^ 10"
  by (simp add: ms5611_getAltitude_def double_div_def Let_def)

subsection \<open>C9: the coefficients are read once\<close>

text \<open>
  Claim C9. The first call of \<open>ms5611_init\<close> (\<open>deviceReset\<close> still false) resets the device
  and reads the six PROM words into \<open>c1\<close> to \<open>c6\<close>. After it, no sequence of calls of the
  driver (further calls of \<open>ms5611_init\<close>, updates, timer interrupts, lock, release, steps,
  getters) changes a coefficient or adds a PROM read or a reset command to the bus; a
  later \<open>ms5611_init\<close> only starts a conversion and waits.
\<close>

theorem coefficients_read_once:
  assumes "\<not> deviceReset s"
  shows "coefficients (ms5611_init cmp p0 p1 p2 p3 p4 p5 s) =
      (fst (ms5611_getPROMValue 0 p0 s), fst (ms5611_getPROMValue 1 p1 s),
       fst (ms5611_getPROMValue 2 p2 s), fst (ms5611_getPROMValue 3 p3 s),
       fst (ms5611_getPROMValue 4 p4 s), fst (ms5611_getPROMValue 5 p5 s))
    \<and> bus (ms5611_init cmp p0 p1 p2 p3 p4 p5 s) = bus s @
      [I2C_writeBytes MS5611_CMD_RESET, Delay MS5611_RESET_DELAY,
       I2C_readBytes (MS5611_CMD_READ_PROM_plus 0) 2, I2C_readBytes (MS5611_CMD_READ_PROM_plus 2) 2,
       I2C_readBytes (MS5611_CMD_READ_PROM_plus 4) 2, I2C_readBytes (MS5611_CMD_READ_PROM_plus 6) 2,
       I2C_readBytes (MS5611_CMD_READ_PROM_plus 8) 2, I2C_readBytes (MS5611_CMD_READ_PROM_plus 10) 2,
       I2C_writeBytes MS5611_CMD_CONV_D1, Delay MS5611_CONV_DELAY]
    \<and> coefficients (run_calls cs (ms5611_init cmp p0 p1 p2 p3 p4 p5 s)) =
        coefficients (ms5611_init cmp p0 p1 p2 p3 p4 p5 s)
    \<and> filter is_prom_read (bus (run_calls cs (ms5611_init cmp p0 p1 p2 p3 p4 p5 s))) =
        filter is_prom_read (bus (ms5611_init cmp p0 p1 p2 p3 p4 p5 s))
    \<and> filter is_reset (bus (run_calls cs (ms5611_init cmp p0 p1 p2 p3 p4 p5 s))) =
        filter is_reset (bus (ms5611_init cmp p0 p1 p2 p3 p4 p5 s))
    \<and> bus (ms5611_init cmp' q0 q1 q2 q3 q4 q5 (run_calls cs (ms5611_init cmp p0 p1 p2 p3 p4 p5 s))) =
        bus (run_calls cs (ms5611_init cmp p0 p1 p2 p3 p4 p5 s)) @
          [I2C_writeBytes MS5611_CMD_CONV_D1, Delay MS5611_CONV_DELAY]"
proof -
  define s1 where "s1 = ms5611_init cmp p0 p1 p2 p3 p4 p5 s"
  have r: "deviceReset s1"
    unfolding s1_def by (rule first_init(2) [OF assms])
  have k: "calibration_kept s1 (run_calls cs s1)"
    by (rule run_calls_kept [OF r])
  then have r2: "deviceReset (run_calls cs s1)"
    using r by (simp add: calibration_kept_def)
  have again: "bus (ms5611_init cmp' q0 q1 q2 q3 q4 q5 (run_calls cs s1)) =
      bus (run_calls cs s1) @ [I2C_writeBytes MS5611_CMD_CONV_D1, Delay MS5611_CONV_DELAY]"
    using r2 by (simp add: ms5611_init_def ms5611_setTimer_def delay_def ms5611_convertD1_def Let_def)
  show ?thesis
    unfolding s1_def [symmetric]
    using first_init(1,3) [OF assms, of cmp p0 p1 p2 p3 p4 p5] k again
    by (simp add: calibration_kept_def s1_def)
qed

text \<open>Witness for C9: initialisation from \<open>quiet_state\<close> with the PROM of the data sheet,
  then a tick, an update and a second initialisation whose bus reads would all fail.\<close>

theorem coefficients_read_once_witness:
  "\<not> deviceReset quiet_state
   \<and> coefficients (run_calls
       [Timer_fires raw_d1, Call_updateData raw_d2,
        Call_init 9 timed_out_prom_read timed_out_prom_read timed_out_prom_read
          timed_out_prom_read timed_out_prom_read timed_out_prom_read]
       (ms5611_init 9 prom_word1 prom_word2 prom_word3 prom_word4 prom_word5 prom_word6 quiet_state))
     = (40127, 36924, 23317, 23282, 33464, 28312)"
  using coefficients_read_once [of quiet_state 9 prom_word1 prom_word2 prom_word3 prom_word4
      prom_word5 prom_word6
      "[Timer_fires raw_d1, Call_updateData raw_d2,
        Call_init 9 timed_out_prom_read timed_out_prom_read timed_out_prom_read
          timed_out_prom_read timed_out_prom_read timed_out_prom_read]"]
  by (simp add: quiet_state_def ms5611_getPROMValue_def prom_word1_def prom_word2_def
      prom_word3_def prom_word4_def prom_word5_def prom_word6_def)

subsection \<open>C10: the update does not look at the flag\<close>

text \<open>
  Claim C10. \<open>ms5611_updateData\<close> never tests \<open>newData\<close>: whatever the flag, it stores the
  temperature and the pressure computed from the current \<open>d1i\<close> and \<open>d2i\<close> and leaves the
  flag false. With no deferred step pending, so that nothing writes the raw samples in
  between, a second call stores the same two values again.
\<close>

theorem updateData_has_no_newData_guard:
  assumes "\<not> interruptWait s"
  shows "compensatedTemperature (ms5611_updateData r1 s) =
      real_of_int (sint (fst (compensate (c1 s) (c2 s) (c3 s) (c4 s) (c5 s) (c6 s) (d1i s) (d2i s)))) / 100
    \<and> compensatedPressure (ms5611_updateData r1 s) =
      real_of_int (sint (snd (compensate (c1 s) (c2 s) (c3 s) (c4 s) (c5 s) (c6 s) (d1i s) (d2i s))))
        / 32768 / 100
    \<and> compensatedTemperature (ms5611_updateData r2 (ms5611_updateData r1 s)) =
        compensatedTemperature (ms5611_updateData r1 s)
    \<and> compensatedPressure (ms5611_updateData r2 (ms5611_updateData r1 s)) =
        compensatedPressure (ms5611_updateData r1 s)
    \<and> \<not> newData (ms5611_updateData r1 s)"
proof -
  define s1 where "s1 = ms5611_updateData r1 s"
  have s1: "s1 = store_compensated (d1i s) (d2i s) (s\<lparr>newData := False, locked := False\<rparr>)"
    unfolding s1_def by (rule updateData_idle [OF assms])
  have same: "d1i s1 = d1i s" "d2i s1 = d2i s" "coefficients s1 = coefficients s" "\<not> newData s1"
    unfolding s1 by (simp_all add: store_compensated_frame) (simp add: coefficients_def)
  then have cs: "c1 s1 = c1 s" "c2 s1 = c2 s" "c3 s1 = c3 s" "c4 s1 = c4 s" "c5 s1 = c5 s"
    "c6 s1 = c6 s"
    by (simp_all add: coefficients_def)
  show ?thesis
    unfolding s1_def [symmetric]
    using same
    by (simp add: updateData_outputs cs) (simp add: s1_def updateData_outputs)
qed

text \<open>Witness for C10: two updates of \<open>quiet_state\<close>, where the flag is false and the raw
  samples and coefficients are still zero; both store 20 degrees and the pressure 0.\<close>

theorem updateData_has_no_newData_guard_witness:
  "\<not> interruptWait quiet_state \<and> \<not> newData quiet_state
   \<and> d1i quiet_state = 0 \<and> d2i quiet_state = 0
   \<and> compensatedTemperature (ms5611_updateData raw_d1 quiet_state) = 20
   \<and> compensatedTemperature (ms5611_updateData raw_d1 (ms5611_updateData raw_d1 quiet_state)) = 20
   \<and> compensatedPressure (ms5611_updateData raw_d1 (ms5611_updateData raw_d1 quiet_state)) = 0"
  using updateData_has_no_newData_guard [of quiet_state raw_d1 raw_d1]
  by (simp add: quiet_state_def compensate_def compute_first_order_def
      second_order_compensation_def compute_pressure_def Let_def word_sless_alt)

end
